theory Spec2Isabelle
  imports Complex_Main "HOL-Library.Word"
begin

unbundle bit_operations_syntax

section \<open>Host values: strings and numbers\<close>

text \<open>
  A string of the program is a sequence of UTF-16 code units, each a natural number.
  Literals of the source are written \<open>js ''...''\<close>.
\<close>

type_synonym jsstring = "nat list"

definition js :: "string \<Rightarrow> jsstring" where
  "js s = map of_char s"

text \<open>
  The white space of the language (WhiteSpace and LineTerminator): the characters that
  \<open>\s\<close> matches in a regular expression and that \<open>parseFloat\<close> skips.
\<close>

definition isWhiteSpace :: "nat \<Rightarrow> bool" where
  "isWhiteSpace c \<longleftrightarrow>
     c = 9 \<or> c = 10 \<or> c = 11 \<or> c = 12 \<or> c = 13 \<or> c = 32 \<or> c = 160 \<or> c = 5760 \<or>
     (8192 \<le> c \<and> c \<le> 8202) \<or> c = 8232 \<or> c = 8233 \<or> c = 8239 \<or> c = 8287 \<or>
     c = 12288 \<or> c = 65279"

definition isDigit :: "nat \<Rightarrow> bool" where
  "isDigit c \<longleftrightarrow> 48 \<le> c \<and> c \<le> 57"

text \<open>
  A number of the program is a binary64 value. It is modelled by the rational that it
  denotes, or is one of NaN and the two infinities. The sign of zero is not modelled.
\<close>

datatype jsnum = NaN | PosInf | NegInf | Val rat

fun isNegative :: "jsnum \<Rightarrow> bool" where
  "isNegative NegInf = True"
| "isNegative (Val a) = (a < 0)"
| "isNegative _ = False"

text \<open>
  The product and the quotient of two numbers, without the rounding of the result to
  binary64, and the comparison \<open><\<close>.
\<close>

fun jmul :: "jsnum \<Rightarrow> jsnum \<Rightarrow> jsnum" where
  "jmul (Val a) (Val b) = Val (a * b)"
| "jmul x y =
     (if x = NaN \<or> y = NaN \<or> x = Val 0 \<or> y = Val 0 then NaN
      else if isNegative x = isNegative y then PosInf else NegInf)"

fun jdiv :: "jsnum \<Rightarrow> jsnum \<Rightarrow> jsnum" where
  "jdiv (Val a) (Val b) =
     (if b = 0 then (if a = 0 then NaN else if 0 < a then PosInf else NegInf)
      else Val (a / b))"
| "jdiv (Val a) PosInf = Val 0"
| "jdiv (Val a) NegInf = Val 0"
| "jdiv PosInf (Val b) = (if b < 0 then NegInf else PosInf)"
| "jdiv NegInf (Val b) = (if b < 0 then PosInf else NegInf)"
| "jdiv _ _ = NaN"

fun jlt :: "jsnum \<Rightarrow> jsnum \<Rightarrow> bool" where
  "jlt (Val a) (Val b) = (a < b)"
| "jlt NegInf (Val b) = True"
| "jlt NegInf PosInf = True"
| "jlt (Val a) PosInf = True"
| "jlt _ _ = False"

text \<open>\<open>Math.round\<close>: the nearest integer, a tie going up.\<close>

fun Math_round :: "jsnum \<Rightarrow> jsnum" where
  "Math_round (Val q) = Val (of_int \<lfloor>q + 1 / 2\<rfloor>)"
| "Math_round x = x"

text \<open>Truthiness of a number: \<open>0\<close> and NaN are falsy.\<close>

fun truthy :: "jsnum \<Rightarrow> bool" where
  "truthy NaN = False"
| "truthy (Val q) = (q \<noteq> 0)"
| "truthy _ = True"

text \<open>Truthiness of \<open>number | null\<close>, and the operator \<open>||\<close> on such values.\<close>

fun truthyOpt :: "jsnum option \<Rightarrow> bool" where
  "truthyOpt None = False"
| "truthyOpt (Some x) = truthy x"

definition orElse :: "jsnum option \<Rightarrow> jsnum option \<Rightarrow> jsnum option" where
  "orElse a b = (if truthyOpt a then a else b)"

subsection \<open>Rounding to binary64\<close>

text \<open>
  A finite binary64 value is an integer of magnitude below \<open>2 ^ 53\<close> times a power of two
  with an exponent from \<open>-1074\<close> on. \<open>binade m e\<close> finds for \<open>m * 2 ^ e\<close> the exponent of
  the grid of such values around it: the exponent for which the scaled magnitude lies
  from \<open>2 ^ 52\<close> up to \<open>2 ^ 53\<close>, and \<open>-1074\<close> for the subnormal magnitudes.
\<close>

function binade :: "rat \<Rightarrow> int \<Rightarrow> int" where
  "binade m e =
     (if 2 ^ 53 \<le> m then binade (m / 2) (e + 1)
      else if m < 2 ^ 52 \<and> - 1074 < e then binade (m * 2) (e - 1)
      else e)"
  by pat_completeness auto
termination
proof (relation "measures [\<lambda>(m, e). if m < 2 ^ 52 then nat (e + 1074) else 0,
                           \<lambda>(m, e). nat \<lfloor>m\<rfloor>]", goal_cases)
  case 1
  show ?case by simp
next
  case (2 m e)
  have "\<lfloor>m / 2\<rfloor> < \<lfloor>m\<rfloor>"
  proof -
    have "m / 2 < of_int \<lfloor>m\<rfloor>"
    proof -
      have "m - 1 < of_int \<lfloor>m\<rfloor>" by linarith
      moreover have "m / 2 \<le> m - 1" using 2 by simp
      ultimately show ?thesis by linarith
    qed
    thus ?thesis by (simp add: floor_less_iff)
  qed
  moreover have "0 < \<lfloor>m\<rfloor>" using 2 by (simp add: floor_less_iff less_floor_iff)
  ultimately show ?case using 2 by auto
next
  case (3 m e)
  thus ?case by auto
qed

declare binade.simps [simp del]

text \<open>The nearest integer, a tie going to the even one.\<close>

definition rne :: "rat \<Rightarrow> int" where
  "rne q =
     (let f = \<lfloor>q\<rfloor>; r = q - of_int f
      in if r < 1 / 2 then f
         else if 1 / 2 < r then f + 1
         else if even f then f else f + 1)"

text \<open>
  \<open>fl q\<close> is \<open>q\<close> rounded to the grid of its magnitude, and \<open>binary64\<close> the rounding of a
  number: a finite value whose rounding reaches \<open>2 ^ 1024\<close> becomes infinite.
\<close>

definition fl :: "rat \<Rightarrow> rat" where
  "fl q = (let e = binade \<bar>q\<bar> 0 in of_int (rne (q / 2 powi e)) * 2 powi e)"

fun binary64 :: "jsnum \<Rightarrow> jsnum" where
  "binary64 (Val q) =
     (let r = fl q
      in if 2 ^ 1024 \<le> r then PosInf else if r \<le> - (2 ^ 1024) then NegInf else Val r)"
| "binary64 x = x"

text \<open>
  The product and the quotient with the rounding of the result. \<open>estimateEffort\<close> and
  the percent of a progress report, whose values depend on the rounding, are defined
  with them; the conversions of units are defined with \<open>jmul\<close> and \<open>jdiv\<close>.
\<close>

definition fmul :: "jsnum \<Rightarrow> jsnum \<Rightarrow> jsnum" where
  "fmul x y = binary64 (jmul x y)"

definition fdiv :: "jsnum \<Rightarrow> jsnum \<Rightarrow> jsnum" where
  "fdiv x y = binary64 (jdiv x y)"

subsection \<open>parseFloat\<close>

text \<open>
  \<open>parseFloat\<close> skips leading white space and converts the longest prefix that is a
  decimal literal (an optional sign, then \<open>Infinity\<close> or digits with an optional
  fraction and exponent); the result is NaN when there is no such prefix.
\<close>

fun digitsValue :: "nat list \<Rightarrow> nat" where
  "digitsValue ds = foldl (\<lambda>acc c. 10 * acc + (c - 48)) 0 ds"

definition scale10 :: "rat \<Rightarrow> int \<Rightarrow> rat" where
  "scale10 q e = (if 0 \<le> e then q * 10 ^ nat e else q / 10 ^ nat (- e))"

definition parseExponent :: "jsstring \<Rightarrow> int" where
  "parseExponent s =
     (case s of
        [] \<Rightarrow> 0
      | c # t \<Rightarrow>
          if c = 101 \<or> c = 69 then
            (case t of
               [] \<Rightarrow> 0
             | d # u \<Rightarrow>
                 if d = 43 then
                   (let ds = takeWhile isDigit u in int (digitsValue ds))
                 else if d = 45 then
                   (let ds = takeWhile isDigit u in - int (digitsValue ds))
                 else (let ds = takeWhile isDigit t in int (digitsValue ds)))
          else 0)"

definition parseUnsigned :: "jsstring \<Rightarrow> jsnum" where
  "parseUnsigned s =
     (if take 8 s = js ''Infinity'' then PosInf
      else
        let ip = takeWhile isDigit s;
            r1 = dropWhile isDigit s;
            fp = (case r1 of [] \<Rightarrow> [] | c # t \<Rightarrow> if c = 46 then takeWhile isDigit t else []);
            r2 = (case r1 of [] \<Rightarrow> [] | c # t \<Rightarrow> if c = 46 then dropWhile isDigit t else r1)
        in if ip = [] \<and> fp = [] then NaN
           else Val (scale10 (of_nat (digitsValue (ip @ fp)))
                             (parseExponent r2 - int (length fp))))"

fun jneg :: "jsnum \<Rightarrow> jsnum" where
  "jneg (Val q) = Val (- q)"
| "jneg PosInf = NegInf"
| "jneg NegInf = PosInf"
| "jneg NaN = NaN"

definition parseFloat :: "jsstring \<Rightarrow> jsnum" where
  "parseFloat s =
     (case dropWhile isWhiteSpace s of
        [] \<Rightarrow> NaN
      | c # t \<Rightarrow>
          if c = 43 then parseUnsigned t
          else if c = 45 then jneg (parseUnsigned t)
          else parseUnsigned (c # t))"

section \<open>Unit and metric conversion\<close>

text \<open>
  The duration conversion of \<open>extractWorkoutsFromChunk\<close>: the parsed duration is
  multiplied by 60 for the unit \<open>min\<close> and by 3600 for \<open>hr\<close>, and left as it is for
  every other unit.
\<close>

definition durationSeconds :: "jsnum \<Rightarrow> jsstring \<Rightarrow> jsnum" where
  "durationSeconds d durationUnit =
     (if durationUnit = js ''min'' then jmul d (Val 60)
      else if durationUnit = js ''hr'' then jmul d (Val 3600)
      else d)"

text \<open>
  \<open>estimateEffort\<close>: the energy per minute is \<open>activeCalories / (durationSeconds / 60)\<close>
  as the program computes it, each quotient rounded to binary64, and is compared with
  the thresholds in turn.
\<close>

definition estimateEffort :: "jsnum \<Rightarrow> jsnum \<Rightarrow> nat" where
  "estimateEffort activeCalories durSeconds =
     (let calPerMin = fdiv activeCalories (fdiv durSeconds (Val 60))
      in if jlt calPerMin (Val 3) then 2
         else if jlt calPerMin (Val 5) then 3
         else if jlt calPerMin (Val 7) then 4
         else if jlt calPerMin (Val 9) then 5
         else if jlt calPerMin (Val 11) then 6
         else if jlt calPerMin (Val 13) then 7
         else if jlt calPerMin (Val 15) then 8
         else if jlt calPerMin (Val 18) then 9
         else 10)"

section \<open>String operations\<close>

text \<open>
  \<open>s.substring(a, b)\<close> swaps its arguments when \<open>a > b\<close> and stops at the end of
  the string; \<open>s.substring(a)\<close> runs to the end.
\<close>

definition substring :: "jsstring \<Rightarrow> nat \<Rightarrow> nat \<Rightarrow> jsstring" where
  "substring s a b = take (max a b - min a b) (drop (min a b) s)"

definition substringFrom :: "jsstring \<Rightarrow> nat \<Rightarrow> jsstring" where
  "substringFrom s a = drop a s"

text \<open>\<open>stripPrefix p s\<close> is the rest of \<open>s\<close> after its prefix \<open>p\<close>, if \<open>s\<close> starts with \<open>p\<close>.\<close>

fun stripPrefix :: "jsstring \<Rightarrow> jsstring \<Rightarrow> jsstring option" where
  "stripPrefix [] s = Some s"
| "stripPrefix (p # ps) [] = None"
| "stripPrefix (p # ps) (c # cs) = (if p = c then stripPrefix ps cs else None)"

definition startsWith :: "jsstring \<Rightarrow> jsstring \<Rightarrow> bool" where
  "startsWith s p \<longleftrightarrow> stripPrefix p s \<noteq> None"

definition endsWith :: "jsstring \<Rightarrow> jsstring \<Rightarrow> bool" where
  "endsWith s p \<longleftrightarrow> length p \<le> length s \<and> drop (length s - length p) s = p"

text \<open>
  \<open>findFirst p s i\<close> is the index of the first occurrence of \<open>p\<close> in the suffix \<open>s\<close>
  that starts at index \<open>i\<close> of the whole string, and \<open>-1\<close> when there is none;
  \<open>findLast\<close> is the index of the last one.
\<close>

fun findFirst :: "jsstring \<Rightarrow> jsstring \<Rightarrow> nat \<Rightarrow> int" where
  "findFirst p [] i = (if p = [] then int i else - 1)"
| "findFirst p (c # t) i =
     (if startsWith (c # t) p then int i else findFirst p t (Suc i))"

fun findLast :: "jsstring \<Rightarrow> jsstring \<Rightarrow> nat \<Rightarrow> int" where
  "findLast p [] i = (if p = [] then int i else - 1)"
| "findLast p (c # t) i =
     (let r = findLast p t (Suc i)
      in if 0 \<le> r then r else if startsWith (c # t) p then int i else - 1)"

definition indexOf :: "jsstring \<Rightarrow> jsstring \<Rightarrow> nat \<Rightarrow> int" where
  "indexOf s p from = findFirst p (drop (min from (length s)) s) (min from (length s))"

definition lastIndexOf :: "jsstring \<Rightarrow> jsstring \<Rightarrow> int" where
  "lastIndexOf s p = findLast p s 0"

text \<open>
  \<open>toLowerCase\<close>, on the letters A to Z (the only letters whose lower case can end
  in one of the characters of \<open>.zip\<close> and \<open>.xml\<close>).
\<close>

definition toLowerCase :: "jsstring \<Rightarrow> jsstring" where
  "toLowerCase s = map (\<lambda>c. if 65 \<le> c \<and> c \<le> 90 then c + 32 else c) s"

definition trim :: "jsstring \<Rightarrow> jsstring" where
  "trim s = rev (dropWhile isWhiteSpace (rev (dropWhile isWhiteSpace s)))"

text \<open>\<open>s.replace(p, r)\<close> with a string pattern replaces the first occurrence only.\<close>

fun replaceFirst :: "jsstring \<Rightarrow> jsstring \<Rightarrow> jsstring \<Rightarrow> jsstring" where
  "replaceFirst p r [] = (if p = [] then r else [])"
| "replaceFirst p r (c # t) =
     (if startsWith (c # t) p then r @ drop (length p) (c # t)
      else c # replaceFirst p r t)"

text \<open>Decimal rendering of a non-negative integer, as a template literal renders it.\<close>

fun showNat :: "nat \<Rightarrow> jsstring" where
  "showNat n = (if n < 10 then [48 + n] else showNat (n div 10) @ [48 + n mod 10])"

section \<open>Regular expressions\<close>

text \<open>
  The patterns of the program are sequences of five kinds of atoms: a literal string,
  \<open>\s\<close>, a lazy \<open>[^c]*?\<close>, a capturing greedy \<open>([^c]*)\<close> and an optional
  character \<open>c?\<close>. \<open>rxm r s\<close> matches the sequence \<open>r\<close> at the start of \<open>s\<close> by
  backtracking, in the order the language prescribes (a lazy star tries the shortest
  repetition first, a greedy one the longest), and returns the captured groups and the
  rest of the string after the match.
\<close>

datatype atom = Lit jsstring | WS | LazyNot nat | CapNot nat | Opt nat

fun rxm :: "atom list \<Rightarrow> jsstring \<Rightarrow> (jsstring list \<times> jsstring) option" where
  "rxm [] s = Some ([], s)"
| "rxm (Lit l # r) s =
     (case stripPrefix l s of None \<Rightarrow> None | Some t \<Rightarrow> rxm r t)"
| "rxm (WS # r) s =
     (case s of [] \<Rightarrow> None | c # t \<Rightarrow> if isWhiteSpace c then rxm r t else None)"
| "rxm (LazyNot c # r) s =
     (case rxm r s of
        Some m \<Rightarrow> Some m
      | None \<Rightarrow>
          (case s of
             [] \<Rightarrow> None
           | x # t \<Rightarrow> if x \<noteq> c then rxm (LazyNot c # r) t else None))"
| "rxm (CapNot c # r) s =
     (case (case s of
              [] \<Rightarrow> None
            | x # t \<Rightarrow>
                if x \<noteq> c then
                  (case rxm (CapNot c # r) t of
                     Some (g # gs, rest) \<Rightarrow> Some ((x # g) # gs, rest)
                   | _ \<Rightarrow> None)
                else None) of
        Some m \<Rightarrow> Some m
      | None \<Rightarrow>
          (case rxm r s of
             Some (gs, rest) \<Rightarrow> Some ([] # gs, rest)
           | None \<Rightarrow> None))"
| "rxm (Opt c # r) s =
     (case (case s of [] \<Rightarrow> None | x # t \<Rightarrow> if x = c then rxm r t else None) of
        Some m \<Rightarrow> Some m
      | None \<Rightarrow> rxm r s)"

text \<open>The number of capturing groups of a pattern.\<close>

fun captures :: "atom list \<Rightarrow> nat" where
  "captures [] = 0"
| "captures (CapNot c # r) = Suc (captures r)"
| "captures (a # r) = captures r"

text \<open>
  A match array: the index of the match, then the matched text followed by the groups
  (the elements \<open>match[0]\<close>, \<open>match[1]\<close>, ...). Reading an element that the array
  does not have gives \<open>undefined\<close>, here \<open>None\<close>.
\<close>

type_synonym rmatch = "nat \<times> jsstring list"

definition matchAt :: "rmatch \<Rightarrow> nat \<Rightarrow> jsstring option" where
  "matchAt m i = (if i < length (snd m) then Some (snd m ! i) else None)"

text \<open>
  \<open>exec\<close> of a pattern without the \<open>g\<close> flag: the first position of the string at
  which the pattern matches.
\<close>

fun regexExec :: "atom list \<Rightarrow> jsstring \<Rightarrow> nat \<Rightarrow> rmatch option" where
  "regexExec rx [] i =
     (case rxm rx [] of Some (gs, rest) \<Rightarrow> Some (i, [] # gs) | None \<Rightarrow> None)"
| "regexExec rx (c # t) i =
     (case rxm rx (c # t) of
        Some (gs, rest) \<Rightarrow> Some (i, take (length (c # t) - length rest) (c # t) # gs)
      | None \<Rightarrow> regexExec rx t (Suc i))"

text \<open>
  The loop \<open>while ((match = REGEX.exec(chunk)) !== null)\<close> of a pattern with the \<open>g\<close>
  flag, started with \<open>lastIndex = 0\<close>: the matches from left to right, each search
  starting where the previous match ended. \<open>execAll rx s i\<close> runs it on the suffix \<open>s\<close>
  that starts at index \<open>i\<close>. Every pattern of the program begins with a literal, so a
  match is never empty (lemma \<open>rxm_Lit_shorter\<close>); the branch of an empty match,
  on which the source's loop would not advance, is therefore never taken.
\<close>

function execAll :: "atom list \<Rightarrow> jsstring \<Rightarrow> nat \<Rightarrow> rmatch list" where
  "execAll rx s i =
     (case rxm rx s of
        Some (gs, rest) \<Rightarrow>
          if length rest < length s then
            (i, take (length s - length rest) s # gs)
              # execAll rx rest (i + (length s - length rest))
          else []
      | None \<Rightarrow> (case s of [] \<Rightarrow> [] | c # t \<Rightarrow> execAll rx t (Suc i)))"
  by pat_completeness auto
termination
  by (relation "measure (\<lambda>(rx, s, i). length s)") auto

section \<open>The host\<close>

text \<open>
  The parts of the platform whose results are not fixed by the program:
  \<^item> \<open>dateParse s\<close> is the time value (milliseconds since the epoch) of \<open>new Date(s)\<close>,
    and \<open>None\<close> for an invalid date;
  \<^item> \<open>isoDate t\<close> is \<open>new Date(t).toISOString().split('T')[0]\<close>, the calendar date
    of a valid time value;
  \<^item> \<open>localeCompare a b\<close> is \<open>a.localeCompare(b)\<close>.
  A timestamp that the program keeps as an ISO string (\<open>toISOString()\<close>) is modelled
  by its time value, which \<open>new Date\<close> reads back from that string unchanged.
\<close>

record host =
  dateParse :: "jsstring \<Rightarrow> int option"
  isoDate :: "int \<Rightarrow> jsstring"
  localeCompare :: "jsstring \<Rightarrow> jsstring \<Rightarrow> int"

datatype error = Error jsstring | RangeError

text \<open>
  \<open>new Date(x).toISOString()\<close>, which raises a RangeError for an invalid date.
  \<open>new Date(undefined)\<close> is an invalid date.
\<close>

definition newDateISO :: "host \<Rightarrow> jsstring option \<Rightarrow> error + int" where
  "newDateISO H x =
     (case x of
        None \<Rightarrow> Inl RangeError
      | Some s \<Rightarrow> (case dateParse H s of None \<Rightarrow> Inl RangeError | Some t \<Rightarrow> Inr t))"

text \<open>\<open>parseFloat(x)\<close> of a string or \<open>undefined\<close>.\<close>

definition parseFloatOpt :: "jsstring option \<Rightarrow> jsnum" where
  "parseFloatOpt x = (case x of None \<Rightarrow> NaN | Some s \<Rightarrow> parseFloat s)"

section \<open>Data model\<close>

record WorkoutTypeMapping =
  mapName :: jsstring
  mapCardioType :: "jsstring option"
  mapBlockType :: jsstring

record WorkoutBlock =
  blockId :: nat
  blockType :: jsstring
  blockName :: jsstring
  blockExercises :: "unit list"

text \<open>
  The identifiers come from \<open>crypto.randomUUID()\<close>; an identifier is modelled by the
  number of identifiers drawn before it. \<open>startedAt\<close> and \<open>completedAt\<close> are time
  values. The optional fields are absent when \<open>None\<close>.
\<close>

record WorkoutSession =
  sessionId :: nat
  name :: jsstring
  blocks :: "WorkoutBlock list"
  startedAt :: int
  completedAt :: int
  exercises :: "unit list"
  totalDuration :: jsnum
  overallEffort :: "nat option"
  cardioType :: "jsstring option"
  distance :: "jsnum option"

record BodyMetric =
  date :: jsstring
  source :: jsstring
  weight :: "jsnum option"
  bodyFat :: "jsnum option"

record ActivityDay =
  dayDate :: jsstring
  activeEnergy :: jsnum
  exerciseMinutes :: jsnum
  standHours :: jsnum

record HealthImportResult =
  workouts :: "WorkoutSession list"
  bodyMetrics :: "BodyMetric list"
  activityDays :: "ActivityDay list"

datatype phase = Reading | Parsing | Done

record ParseProgress =
  phase :: phase
  percent :: jsnum
  detail :: jsstring

section \<open>Workout extraction\<close>

definition cardio :: "jsstring \<Rightarrow> jsstring \<Rightarrow> WorkoutTypeMapping" where
  "cardio n c = \<lparr>mapName = n, mapCardioType = Some c, mapBlockType = js ''cardio''\<rparr>"

definition plain :: "jsstring \<Rightarrow> jsstring \<Rightarrow> WorkoutTypeMapping" where
  "plain n b = \<lparr>mapName = n, mapCardioType = None, mapBlockType = b\<rparr>"

definition WORKOUT_TYPE_MAP :: "(jsstring \<times> WorkoutTypeMapping) list" where
  "WORKOUT_TYPE_MAP =
    [(js ''HKWorkoutActivityTypeRunning'', cardio (js ''Run'') (js ''run'')),
     (js ''HKWorkoutActivityTypeWalking'', cardio (js ''Walk'') (js ''walk'')),
     (js ''HKWorkoutActivityTypeHiking'', cardio (js ''Hike'') (js ''hike'')),
     (js ''HKWorkoutActivityTypeCycling'', plain (js ''Cycling'') (js ''cardio'')),
     (js ''HKWorkoutActivityTypeTraditionalStrengthTraining'',
        plain (js ''Strength Training'') (js ''strength'')),
     (js ''HKWorkoutActivityTypeFunctionalStrengthTraining'',
        plain (js ''Functional Training'') (js ''strength'')),
     (js ''HKWorkoutActivityTypeYoga'', plain (js ''Yoga'') (js ''cooldown'')),
     (js ''HKWorkoutActivityTypeHighIntensityIntervalTraining'',
        plain (js ''HIIT'') (js ''conditioning'')),
     (js ''HKWorkoutActivityTypeRowing'', plain (js ''Rowing'') (js ''cardio'')),
     (js ''HKWorkoutActivityTypeCoreTraining'', plain (js ''Core Training'') (js ''strength'')),
     (js ''HKWorkoutActivityTypeFlexibility'', plain (js ''Flexibility'') (js ''cooldown'')),
     (js ''HKWorkoutActivityTypePilates'', plain (js ''Pilates'') (js ''strength'')),
     (js ''HKWorkoutActivityTypeElliptical'', plain (js ''Elliptical'') (js ''cardio'')),
     (js ''HKWorkoutActivityTypeStairClimbing'', plain (js ''Stair Climbing'') (js ''cardio'')),
     (js ''HKWorkoutActivityTypeCrossTraining'',
        plain (js ''Cross Training'') (js ''conditioning'')),
     (js ''HKWorkoutActivityTypeMixedCardio'', plain (js ''Mixed Cardio'') (js ''cardio'')),
     (js ''HKWorkoutActivityTypeSwimming'', plain (js ''Swimming'') (js ''cardio'')),
     (js ''HKWorkoutActivityTypeDance'', plain (js ''Dance'') (js ''conditioning'')),
     (js ''HKWorkoutActivityTypeCooldown'', plain (js ''Cooldown'') (js ''cooldown'')),
     (js ''HKWorkoutActivityTypeTrailRunning'', cardio (js ''Trail Run'') (js ''trail-run''))]"

text \<open>
  \<open>WORKOUT_REGEX\<close>:
  \<^verbatim>\<open><Workout\s[^>]*?workoutActivityType="([^"]*)"[^>]*?duration="([^"]*)"[^>]*?durationUnit="([^"]*)"[^>]*?startDate="([^"]*)"[^>]*?endDate="([^"]*)"[^>]*?\/?>\<close>
  (code unit 62 is \<open>>\<close>, 34 is the double quote, 47 is \<open>/\<close>).
\<close>

definition WORKOUT_REGEX :: "atom list" where
  \<open>WORKOUT_REGEX =
     [Lit (js ''<Workout''), WS,
      LazyNot 62, Lit (js ''workoutActivityType="''), CapNot 34, Lit (js ''"''),
      LazyNot 62, Lit (js ''duration="''), CapNot 34, Lit (js ''"''),
      LazyNot 62, Lit (js ''durationUnit="''), CapNot 34, Lit (js ''"''),
      LazyNot 62, Lit (js ''startDate="''), CapNot 34, Lit (js ''"''),
      LazyNot 62, Lit (js ''endDate="''), CapNot 34, Lit (js ''"''),
      LazyNot 62, Opt 47, Lit (js ''>'')]\<close>

text \<open>
  \<open>extractMetadataValue\<close>: the \<open>sum\<close> attribute after the type identifier, else the
  \<open>quantity\<close> attribute, else \<open>null\<close>.
\<close>

definition statRegex :: "jsstring \<Rightarrow> atom list" where
  \<open>statRegex typeIdentifier =
     [Lit (js ''type="'' @ typeIdentifier @ js ''"''), LazyNot 62,
      Lit (js ''sum="''), CapNot 34, Lit (js ''"'')]\<close>

definition qtyRegex :: "jsstring \<Rightarrow> atom list" where
  \<open>qtyRegex typeIdentifier =
     [Lit (js ''type="'' @ typeIdentifier @ js ''"''), LazyNot 62,
      Lit (js ''quantity="''), CapNot 34, Lit (js ''"'')]\<close>

definition extractMetadataValue :: "jsstring \<Rightarrow> jsstring \<Rightarrow> jsnum option" where
  "extractMetadataValue context typeIdentifier =
     (case regexExec (statRegex typeIdentifier) context 0 of
        Some statMatch \<Rightarrow> Some (parseFloatOpt (matchAt statMatch 1))
      | None \<Rightarrow>
          (case regexExec (qtyRegex typeIdentifier) context 0 of
             Some qtyMatch \<Rightarrow> Some (parseFloatOpt (matchAt qtyMatch 1))
           | None \<Rightarrow> None))"

text \<open>
  \<open>formatActivityType\<close>: the prefix is removed once, a space is put before every
  capital letter A to Z, and the result is trimmed.
\<close>

definition formatActivityType :: "jsstring \<Rightarrow> jsstring" where
  "formatActivityType t =
     trim (concat (map (\<lambda>c. if 65 \<le> c \<and> c \<le> 90 then [32, c] else [c])
                       (replaceFirst (js ''HKWorkoutActivityType'') [] t)))"

text \<open>A string or \<open>undefined\<close> used as a key or compared as a string.\<close>

definition strOf :: "jsstring option \<Rightarrow> jsstring" where
  "strOf x = (case x of None \<Rightarrow> js ''undefined'' | Some s \<Rightarrow> s)"

text \<open>
  The text searched for the distance and the energy of a workout: from the start of the
  match to the end of the next \<open></Workout>\<close>, or the match alone when there is no
  closing tag after it.
\<close>

definition workoutContext :: "jsstring \<Rightarrow> rmatch \<Rightarrow> jsstring" where
  "workoutContext chunk m =
     (let contextEnd = indexOf chunk (js ''</Workout>'') (fst m)
      in if int (fst m) < contextEnd
         then substring chunk (fst m) (nat contextEnd + 10)
         else strOf (matchAt m 0))"

text \<open>
  The \<open>distance\<close> field from the value found: \<open>distance ? distance * 0.621371 : undefined\<close>,
  then \<open>...(distanceMiles && { distance: Math.round(distanceMiles * 100) / 100 })\<close>.
\<close>

definition distanceField :: "jsnum option \<Rightarrow> jsnum option" where
  "distanceField distanceKm =
     (let distanceMiles = (case distanceKm of
                             None \<Rightarrow> None
                           | Some d \<Rightarrow>
                               if truthy d then Some (jmul d (Val (621371 / 1000000))) else None)
      in case distanceMiles of
           None \<Rightarrow> None
         | Some dm \<Rightarrow>
             if truthy dm then Some (jdiv (Math_round (jmul dm (Val 100))) (Val 100)) else None)"

text \<open>
  The \<open>overallEffort\<close> field from the energy found:
  \<open>energy ? estimateEffort(energy, durationSeconds) : undefined\<close>, then
  \<open>...(effort && { overallEffort: effort })\<close>.
\<close>

definition effortField :: "jsnum option \<Rightarrow> jsnum \<Rightarrow> nat option" where
  "effortField energy durSeconds =
     (let effort = (case energy of
                      None \<Rightarrow> None
                    | Some e \<Rightarrow> if truthy e then Some (estimateEffort e durSeconds) else None)
      in case effort of None \<Rightarrow> None | Some k \<Rightarrow> if k \<noteq> 0 then Some k else None)"

text \<open>
  The body of the loop of \<open>extractWorkoutsFromChunk\<close>: the session built from one
  match, or the RangeError of \<open>toISOString()\<close> on an invalid start or end date.
  \<open>n\<close> is the number of sessions pushed so far; each session draws two identifiers.
\<close>

definition workoutFromMatch ::
  "host \<Rightarrow> jsstring \<Rightarrow> nat \<Rightarrow> rmatch \<Rightarrow> error + WorkoutSession" where
  "workoutFromMatch H chunk n m =
     (let activityType = strOf (matchAt m 1);
          durationStr = matchAt m 2;
          durationUnit = strOf (matchAt m 3);
          startDate = matchAt m 4;
          endDate = matchAt m 5;
          mapping = (case map_of WORKOUT_TYPE_MAP activityType of
                       Some mp \<Rightarrow> mp
                     | None \<Rightarrow> plain (formatActivityType activityType) (js ''conditioning''));
          durSeconds = durationSeconds (parseFloatOpt durationStr) durationUnit;
          context = workoutContext chunk m;
          distanceKm = orElse
            (extractMetadataValue context (js ''HKQuantityTypeIdentifierDistanceWalkingRunning''))
            (extractMetadataValue context (js ''HKQuantityTypeIdentifierDistanceCycling''));
          energy = extractMetadataValue context (js ''HKQuantityTypeIdentifierActiveEnergyBurned'')
      in case newDateISO H startDate of
           Inl e \<Rightarrow> Inl e
         | Inr started \<Rightarrow>
             (case newDateISO H endDate of
                Inl e \<Rightarrow> Inl e
              | Inr completed \<Rightarrow>
                  Inr \<lparr>sessionId = 2 * n,
                       name = mapName mapping,
                       blocks = [\<lparr>blockId = 2 * n + 1, blockType = mapBlockType mapping,
                                  blockName = mapName mapping, blockExercises = []\<rparr>],
                       startedAt = started,
                       completedAt = completed,
                       exercises = [],
                       totalDuration = Math_round durSeconds,
                       overallEffort = effortField energy durSeconds,
                       cardioType = (case mapCardioType mapping of
                                       None \<Rightarrow> None
                                     | Some c \<Rightarrow> if c \<noteq> [] then Some c else None),
                       distance = distanceField distanceKm\<rparr>))"

fun pushWorkouts ::
  "host \<Rightarrow> jsstring \<Rightarrow> WorkoutSession list \<Rightarrow> rmatch list \<Rightarrow> error + WorkoutSession list" where
  "pushWorkouts H chunk ws [] = Inr ws"
| "pushWorkouts H chunk ws (m # ms) =
     (case workoutFromMatch H chunk (length ws) m of
        Inl e \<Rightarrow> Inl e
      | Inr session \<Rightarrow> pushWorkouts H chunk (ws @ [session]) ms)"

definition extractWorkoutsFromChunk ::
  "host \<Rightarrow> jsstring \<Rightarrow> WorkoutSession list \<Rightarrow> error + WorkoutSession list" where
  "extractWorkoutsFromChunk H chunk ws = pushWorkouts H chunk ws (execAll WORKOUT_REGEX chunk 0)"

section \<open>Body metrics extraction\<close>

text \<open>
  \<open>BODY_MASS_REGEX\<close>:
  \<^verbatim>\<open><Record\s[^>]*?type="HKQuantityTypeIdentifierBodyMass"[^>]*?value="([^"]*)"[^>]*?unit="([^"]*)"[^>]*?startDate="([^"]*)"[^>]*?\/?>\<close>
  and \<open>BODY_FAT_REGEX\<close>:
  \<^verbatim>\<open><Record\s[^>]*?type="HKQuantityTypeIdentifierBodyFatPercentage"[^>]*?value="([^"]*)"[^>]*?startDate="([^"]*)"[^>]*?\/?>\<close>
\<close>

definition BODY_MASS_REGEX :: "atom list" where
  \<open>BODY_MASS_REGEX =
     [Lit (js ''<Record''), WS,
      LazyNot 62, Lit (js ''type="HKQuantityTypeIdentifierBodyMass"''),
      LazyNot 62, Lit (js ''value="''), CapNot 34, Lit (js ''"''),
      LazyNot 62, Lit (js ''unit="''), CapNot 34, Lit (js ''"''),
      LazyNot 62, Lit (js ''startDate="''), CapNot 34, Lit (js ''"''),
      LazyNot 62, Opt 47, Lit (js ''>'')]\<close>

definition BODY_FAT_REGEX :: "atom list" where
  \<open>BODY_FAT_REGEX =
     [Lit (js ''<Record''), WS,
      LazyNot 62, Lit (js ''type="HKQuantityTypeIdentifierBodyFatPercentage"''),
      LazyNot 62, Lit (js ''value="''), CapNot 34, Lit (js ''"''),
      LazyNot 62, Lit (js ''startDate="''), CapNot 34, Lit (js ''"''),
      LazyNot 62, Opt 47, Lit (js ''>'')]\<close>

text \<open>
  The accumulator \<open>Map<string, BodyMetric>\<close> is an association list in insertion
  order: \<open>mapSet\<close> replaces the value of a key that is present, in place, and appends
  a new key at the end.
\<close>

type_synonym metricsMap = "(jsstring \<times> BodyMetric) list"

fun mapSet :: "jsstring \<Rightarrow> BodyMetric \<Rightarrow> metricsMap \<Rightarrow> metricsMap" where
  "mapSet k v [] = [(k, v)]"
| "mapSet k v ((k', v') # m) = (if k' = k then (k, v) # m else (k', v') # mapSet k v m)"

definition mapGetOrNew :: "metricsMap \<Rightarrow> jsstring \<Rightarrow> BodyMetric" where
  "mapGetOrNew metrics d =
     (case map_of metrics d of
        Some existing \<Rightarrow> existing
      | None \<Rightarrow> \<lparr>date = d, source = js ''apple_health'', weight = None, bodyFat = None\<rparr>)"

text \<open>
  The body of the first loop: \<open>const [, valueStr, unit, dateStr] = match\<close> reads the
  elements 1, 2 and 3 of the match array.
\<close>

definition bodyMassFromMatch :: "host \<Rightarrow> metricsMap \<Rightarrow> rmatch \<Rightarrow> error + metricsMap" where
  "bodyMassFromMatch H metrics m =
     (let valueStr = matchAt m 1;
          unit = strOf (matchAt m 2);
          dateStr = matchAt m 3;
          w0 = parseFloatOpt valueStr;
          w = (if unit = js ''kg'' then jmul w0 (Val (220462 / 100000)) else w0)
      in case newDateISO H dateStr of
           Inl e \<Rightarrow> Inl e
         | Inr t \<Rightarrow>
             (let d = isoDate H t;
                  existing = mapGetOrNew metrics d
              in Inr (mapSet d
                        (existing\<lparr>weight := Some (jdiv (Math_round (jmul w (Val 10))) (Val 10))\<rparr>)
                        metrics)))"

text \<open>
  The body of the second loop: \<open>const [, valueStr,, dateStr] = match\<close> reads the
  elements 1 and 3 of the match array.
\<close>

definition bodyFatFromMatch :: "host \<Rightarrow> metricsMap \<Rightarrow> rmatch \<Rightarrow> error + metricsMap" where
  "bodyFatFromMatch H metrics m =
     (let valueStr = matchAt m 1;
          dateStr = matchAt m 3;
          bf = jmul (parseFloatOpt valueStr) (Val 100)
      in case newDateISO H dateStr of
           Inl e \<Rightarrow> Inl e
         | Inr t \<Rightarrow>
             (let d = isoDate H t;
                  existing = mapGetOrNew metrics d
              in Inr (mapSet d
                        (existing\<lparr>bodyFat := Some (jdiv (Math_round (jmul bf (Val 10))) (Val 10))\<rparr>)
                        metrics)))"

fun foldMatches ::
  "('a \<Rightarrow> rmatch \<Rightarrow> error + 'a) \<Rightarrow> 'a \<Rightarrow> rmatch list \<Rightarrow> error + 'a" where
  "foldMatches body acc [] = Inr acc"
| "foldMatches body acc (m # ms) =
     (case body acc m of Inl e \<Rightarrow> Inl e | Inr acc' \<Rightarrow> foldMatches body acc' ms)"

definition extractBodyMetricsFromChunk ::
  "host \<Rightarrow> jsstring \<Rightarrow> metricsMap \<Rightarrow> error + metricsMap" where
  "extractBodyMetricsFromChunk H chunk metrics =
     (case foldMatches (bodyMassFromMatch H) metrics (execAll BODY_MASS_REGEX chunk 0) of
        Inl e \<Rightarrow> Inl e
      | Inr metrics' \<Rightarrow>
          foldMatches (bodyFatFromMatch H) metrics' (execAll BODY_FAT_REGEX chunk 0))"

section \<open>Activity summary extraction\<close>

text \<open>
  \<open>ACTIVITY_SUMMARY_REGEX\<close>:
  \<^verbatim>\<open><ActivitySummary\s[^>]*?dateComponents="([^"]*)"[^>]*?activeEnergyBurned="([^"]*)"[^>]*?appleExerciseTime="([^"]*)"[^>]*?appleStandHours="([^"]*)"[^>]*?\/?>\<close>
\<close>

definition ACTIVITY_SUMMARY_REGEX :: "atom list" where
  \<open>ACTIVITY_SUMMARY_REGEX =
     [Lit (js ''<ActivitySummary''), WS,
      LazyNot 62, Lit (js ''dateComponents="''), CapNot 34, Lit (js ''"''),
      LazyNot 62, Lit (js ''activeEnergyBurned="''), CapNot 34, Lit (js ''"''),
      LazyNot 62, Lit (js ''appleExerciseTime="''), CapNot 34, Lit (js ''"''),
      LazyNot 62, Lit (js ''appleStandHours="''), CapNot 34, Lit (js ''"''),
      LazyNot 62, Opt 47, Lit (js ''>'')]\<close>

definition activityDayFromMatch :: "rmatch \<Rightarrow> ActivityDay" where
  "activityDayFromMatch m =
     \<lparr>dayDate = strOf (matchAt m 1),
      activeEnergy = Math_round (parseFloatOpt (matchAt m 2)),
      exerciseMinutes = Math_round (parseFloatOpt (matchAt m 3)),
      standHours = Math_round (parseFloatOpt (matchAt m 4))\<rparr>"

definition extractActivityDaysFromChunk :: "jsstring \<Rightarrow> ActivityDay list \<Rightarrow> ActivityDay list" where
  "extractActivityDaysFromChunk chunk days =
     days @ map activityDayFromMatch (execAll ACTIVITY_SUMMARY_REGEX chunk 0)"

section \<open>Reading the file\<close>

text \<open>
  A file has a name and a content of bytes; \<open>file.size\<close> is the number of bytes and
  \<open>file.slice(a, b)\<close> the bytes from \<open>a\<close> up to \<open>b\<close>.
\<close>

record File =
  fileName :: jsstring
  content :: "8 word list"

definition fileSize :: "File \<Rightarrow> nat" where
  "fileSize file = length (content file)"

definition slice :: "8 word list \<Rightarrow> nat \<Rightarrow> nat \<Rightarrow> 8 word list" where
  "slice bs a b = take (b - a) (drop a bs)"

text \<open>
  \<open>Blob.text()\<close> decodes the bytes as UTF-8: a leading byte order mark is dropped,
  every maximal ill-formed part becomes the replacement character U+FFFD (65533), and a
  sequence cut short by the end of the bytes becomes one replacement character. The
  decoder is either between characters (\<open>Idle\<close>) or inside a sequence, with the code
  point read so far, the number of bytes still needed, and the range allowed for the
  next byte.
\<close>

datatype decoder = Idle | Pending nat nat "8 word" "8 word"

definition startByte :: "8 word \<Rightarrow> nat list \<times> decoder" where
  "startByte b =
     (if b \<le> 0x7F then ([unat b], Idle)
      else if 0xC2 \<le> b \<and> b \<le> 0xDF then ([], Pending (unat (b AND 0x1F)) 1 0x80 0xBF)
      else if 0xE0 \<le> b \<and> b \<le> 0xEF then
        ([], Pending (unat (b AND 0xF)) 2 (if b = 0xE0 then 0xA0 else 0x80)
                                         (if b = 0xED then 0x9F else 0xBF))
      else if 0xF0 \<le> b \<and> b \<le> 0xF4 then
        ([], Pending (unat (b AND 0x7)) 3 (if b = 0xF0 then 0x90 else 0x80)
                                         (if b = 0xF4 then 0x8F else 0xBF))
      else ([65533], Idle))"

fun decodeFrom :: "decoder \<Rightarrow> 8 word list \<Rightarrow> nat list" where
  "decodeFrom Idle [] = []"
| "decodeFrom (Pending cp n lo hi) [] = [65533]"
| "decodeFrom Idle (b # bs) = fst (startByte b) @ decodeFrom (snd (startByte b)) bs"
| "decodeFrom (Pending cp n lo hi) (b # bs) =
     (if b < lo \<or> hi < b then
        65533 # fst (startByte b) @ decodeFrom (snd (startByte b)) bs
      else if n = 1 then (cp * 64 + unat (b AND 0x3F)) # decodeFrom Idle bs
      else decodeFrom (Pending (cp * 64 + unat (b AND 0x3F)) (n - 1) 0x80 0xBF) bs)"

text \<open>A code point as UTF-16 code units.\<close>

definition utf16 :: "nat \<Rightarrow> jsstring" where
  "utf16 cp =
     (if cp < 65536 then [cp]
      else [55296 + (cp - 65536) div 1024, 56320 + (cp - 65536) mod 1024])"

definition utf8_decode :: "8 word list \<Rightarrow> jsstring" where
  "utf8_decode bs =
     concat (map utf16 (decodeFrom Idle
       (if take 3 bs = [0xEF, 0xBB, 0xBF] then drop 3 bs else bs)))"

section \<open>The import\<close>

text \<open>
  What a run does that its caller or the extractors see, in order: \<open>Fragment e p\<close> is
  the hand-over of the fragment \<open>p\<close> to the three extractors when \<open>e\<close> bytes of the
  file have been read, and \<open>Progress r\<close> is a call of \<open>onProgress\<close>.
\<close>

datatype event = Fragment nat jsstring | Progress ParseProgress

type_synonym accumulators = "WorkoutSession list \<times> metricsMap \<times> ActivityDay list"

definition CHUNK_SIZE :: nat where
  "CHUNK_SIZE = 10 * 1024 * 1024"

text \<open>
  The rendering of a number in a template literal, for the integers that the program
  renders, and \<open>Math.round(n / 1024 / 1024)\<close>.
\<close>

fun showNum :: "jsnum \<Rightarrow> jsstring" where
  "showNum NaN = js ''NaN''"
| "showNum PosInf = js ''Infinity''"
| "showNum NegInf = js ''-Infinity''"
| "showNum (Val q) = (if q < 0 then 45 # showNat (nat \<lfloor>- q\<rfloor>) else showNat (nat \<lfloor>q\<rfloor>))"

definition megabytes :: "nat \<Rightarrow> jsnum" where
  "megabytes n = Math_round (jdiv (jdiv (Val (of_nat n)) (Val 1024)) (Val 1024))"

text \<open>
  The split of the text of a chunk that is not the last one: after the last \<open>/>\<close> or
  the last \<open></Workout>\<close>, whichever ends later; \<open>None\<close> when the text has neither.
\<close>

definition safeSplit :: "jsstring \<Rightarrow> (jsstring \<times> jsstring) option" where
  "safeSplit text =
     (let lastWorkoutClose = lastIndexOf text (js ''</Workout>'');
          lastSelfClose = lastIndexOf text (js ''/>'');
          splitAt = max (if 0 \<le> lastSelfClose then lastSelfClose + 2 else - 1)
                        (if 0 \<le> lastWorkoutClose then lastWorkoutClose + 10 else - 1)
      in if 0 < splitAt
         then Some (substring text 0 (nat splitAt), substringFrom text (nat splitAt))
         else None)"

text \<open>The three extractors on one fragment, in the order of the source.\<close>

definition extractAll :: "host \<Rightarrow> jsstring \<Rightarrow> accumulators \<Rightarrow> error + accumulators" where
  "extractAll H processable acc =
     (case acc of
        (ws, metrics, days) \<Rightarrow>
          (case extractWorkoutsFromChunk H processable ws of
             Inl e \<Rightarrow> Inl e
           | Inr ws' \<Rightarrow>
               (case extractBodyMetricsFromChunk H processable metrics of
                  Inl e \<Rightarrow> Inl e
                | Inr metrics' \<Rightarrow>
                    Inr (ws', metrics', extractActivityDaysFromChunk processable days))))"

text \<open>
  The percent of a report, \<open>Math.round((end / file.size) * 95)\<close>: the quotient and the
  product are those of the program, rounded to binary64.
\<close>

definition progressPercent :: "nat \<Rightarrow> nat \<Rightarrow> jsnum" where
  "progressPercent e n = Math_round (fmul (fdiv (Val (of_nat e)) (Val (of_nat n))) (Val 95))"

text \<open>
  The report after a fragment. Between the sizes and the counts the source file has the
  three characters U+00E2, U+20AC and U+201D.
\<close>

definition parsingReport :: "nat \<Rightarrow> nat \<Rightarrow> accumulators \<Rightarrow> ParseProgress" where
  "parsingReport e n acc =
     (case acc of
        (ws, metrics, days) \<Rightarrow>
          \<lparr>phase = Parsing,
           percent = progressPercent e n,
           detail = js ''Processing ('' @ showNum (megabytes e) @ js ''/''
                    @ showNum (megabytes n) @ js '' MB) '' @ [226, 8364, 8221] @ js '' ''
                    @ showNat (length ws) @ js '' workouts, ''
                    @ showNat (length metrics) @ js '' measurements, ''
                    @ showNat (length days) @ js '' activity days''\<rparr>)"

text \<open>
  The loop \<open>for (let offset = 0; offset < file.size; offset += CHUNK_SIZE)\<close>, with the
  chunk size \<open>C\<close> as a parameter. It returns the events of the iterations and either
  the accumulators at the end or the error that an extractor raised. The program's
  chunk size is positive; the loop is not entered with \<open>C = 0\<close>, where the source's
  loop would not advance.
\<close>

function scanLoop ::
  "host \<Rightarrow> nat \<Rightarrow> File \<Rightarrow> nat \<Rightarrow> jsstring \<Rightarrow> accumulators
     \<Rightarrow> event list \<times> (error + accumulators)" where
  "scanLoop H C file offset remainder acc =
     (if offset < fileSize file \<and> 0 < C then
        (let e = min (offset + C) (fileSize file);
             chunkText = utf8_decode (slice (content file) offset e);
             text = remainder @ chunkText
         in case (if e < fileSize file then safeSplit text else Some (text, [])) of
              None \<Rightarrow> scanLoop H C file (offset + C) text acc
            | Some (processable, remainder') \<Rightarrow>
                (case extractAll H processable acc of
                   Inl err \<Rightarrow> ([Fragment e processable], Inl err)
                 | Inr acc' \<Rightarrow>
                     (case scanLoop H C file (offset + C) remainder' acc' of
                        (evs, r) \<Rightarrow>
                          (Fragment e processable
                             # Progress (parsingReport e (fileSize file) acc') # evs, r))))
      else ([], Inr acc))"
  by pat_completeness auto
termination
  by (relation "measure (\<lambda>(H, C, file, offset, remainder, acc). fileSize file - offset)") auto

declare scanLoop.simps [simp del]
declare execAll.simps [simp del]

text \<open>
  \<open>Array.prototype.sort\<close> with a comparison function: a stable sort, here by insertion.
  \<open>x\<close> goes before the first element that it does not compare greater than.
\<close>

fun insertBy :: "('a \<Rightarrow> 'a \<Rightarrow> int) \<Rightarrow> 'a \<Rightarrow> 'a list \<Rightarrow> 'a list" where
  "insertBy cmp x [] = [x]"
| "insertBy cmp x (y # ys) = (if cmp x y \<le> 0 then x # y # ys else y # insertBy cmp x ys)"

definition sortBy :: "('a \<Rightarrow> 'a \<Rightarrow> int) \<Rightarrow> 'a list \<Rightarrow> 'a list" where
  "sortBy cmp xs = foldr (insertBy cmp) xs []"

definition parseHealthExportChunked ::
  "host \<Rightarrow> nat \<Rightarrow> File \<Rightarrow> event list \<times> (error + HealthImportResult)" where
  "parseHealthExportChunked H C file =
     (let lowerName = toLowerCase (fileName file)
      in if endsWith lowerName (js ''.zip'') then
           ([], Inl (Error (js
              ''Please unzip the Apple Health export first and select the export.xml file inside.'')))
         else if \<not> endsWith lowerName (js ''.xml'') then
           ([], Inl (Error (js ''Please select an export.xml file.'')))
         else
           (let sizeMB = megabytes (fileSize file);
                first = Progress \<lparr>phase = Parsing, percent = Val 0,
                          detail = js ''Processing file ('' @ showNum sizeMB @ js '' MB)...''\<rparr>
            in case scanLoop H C file 0 [] ([], [], []) of
                 (evs, Inl err) \<Rightarrow> (first # evs, Inl err)
               | (evs, Inr (ws, metrics, days)) \<Rightarrow>
                   (let sortedWorkouts = sortBy (\<lambda>a b. startedAt a - startedAt b) ws;
                        sortedMetrics =
                          sortBy (\<lambda>a b. localeCompare H (date a) (date b)) (map snd metrics);
                        sortedDays =
                          sortBy (\<lambda>a b. localeCompare H (dayDate a) (dayDate b)) days
                    in (first # evs @
                          [Progress \<lparr>phase = Done, percent = Val 100,
                             detail = js ''Found '' @ showNat (length sortedWorkouts)
                               @ js '' workouts, '' @ showNat (length sortedMetrics)
                               @ js '' measurements, '' @ showNat (length sortedDays)
                               @ js '' activity days''\<rparr>],
                        Inr \<lparr>workouts = sortedWorkouts, bodyMetrics = sortedMetrics,
                             activityDays = sortedDays\<rparr>))))"

definition parseHealthExport :: "host \<Rightarrow> File \<Rightarrow> event list \<times> (error + HealthImportResult)" where
  "parseHealthExport H file = parseHealthExportChunked H CHUNK_SIZE file"

section \<open>Observations on a run\<close>

text \<open>The fragments handed to the extractors and the progress reports, in order.\<close>

fun fragmentsOf :: "event list \<Rightarrow> jsstring list" where
  "fragmentsOf [] = []"
| "fragmentsOf (Fragment e p # evs) = p # fragmentsOf evs"
| "fragmentsOf (Progress r # evs) = fragmentsOf evs"

fun progressOf :: "event list \<Rightarrow> ParseProgress list" where
  "progressOf [] = []"
| "progressOf (Fragment e p # evs) = progressOf evs"
| "progressOf (Progress r # evs) = r # progressOf evs"

text \<open>The order \<open>\<le>\<close> on numbers.\<close>

fun jle :: "jsnum \<Rightarrow> jsnum \<Rightarrow> bool" where
  "jle (Val a) (Val b) = (a \<le> b)"
| "jle NegInf (Val b) = True"
| "jle (Val a) PosInf = True"
| "jle NegInf PosInf = True"
| "jle NegInf NegInf = True"
| "jle PosInf PosInf = True"
| "jle _ _ = False"

text \<open>
  \<open>reportsFollowFragments n evs\<close>: in the events \<open>evs\<close> of a run on a file of \<open>n\<close>
  bytes, every fragment is followed at once by a report of the phase \<open>parsing\<close> whose
  percent is \<open>Math.round(e / n * 95)\<close> for the bytes \<open>e\<close> read so far, and at most 95;
  only a fragment on which an extractor raised an error has nothing after it.
\<close>

fun reportsFollowFragments :: "nat \<Rightarrow> event list \<Rightarrow> bool" where
  "reportsFollowFragments n [] = True"
| "reportsFollowFragments n (Progress r # evs) = reportsFollowFragments n evs"
| "reportsFollowFragments n (Fragment e p # []) = True"
| "reportsFollowFragments n (Fragment e p # Fragment e' p' # evs) = False"
| "reportsFollowFragments n (Fragment e p # Progress r # evs) =
     (phase r = Parsing
      \<and> percent r = Math_round (fmul (fdiv (Val (of_nat e)) (Val (of_nat n))) (Val 95))
      \<and> jle (percent r) (Val 95)
      \<and> reportsFollowFragments n evs)"

text \<open>
  A comparison function is consistent when the relation \<open>cmp a b \<le> 0\<close> is total and
  transitive.
\<close>

definition consistent :: "('a \<Rightarrow> 'a \<Rightarrow> int) \<Rightarrow> bool" where
  "consistent cmp \<longleftrightarrow>
     (\<forall>a b. cmp a b \<le> 0 \<or> cmp b a \<le> 0) \<and>
     (\<forall>a b c. cmp a b \<le> 0 \<and> cmp b c \<le> 0 \<longrightarrow> cmp a c \<le> 0)"

text \<open>
  The calendar date that a string writes as year, month and day between hyphens: its
  fields read as decimal numbers. \<open>dateLe a b\<close> holds when the date of \<open>a\<close> is not after
  the date of \<open>b\<close>, and \<open>ordersDates cmp ds\<close> when the comparison function \<open>cmp\<close> puts
  the strings \<open>ds\<close> in the order of their dates.
\<close>

fun splitOn :: "nat \<Rightarrow> jsstring \<Rightarrow> jsstring list" where
  "splitOn c [] = [[]]"
| "splitOn c (x # xs) =
     (if x = c then [] # splitOn c xs
      else (case splitOn c xs of [] \<Rightarrow> [[x]] | f # fs \<Rightarrow> (x # f) # fs))"

definition dateFields :: "jsstring \<Rightarrow> nat list" where
  "dateFields s = map digitsValue (splitOn 45 s)"

fun fieldsLe :: "nat list \<Rightarrow> nat list \<Rightarrow> bool" where
  "fieldsLe [] ys = True"
| "fieldsLe (x # xs) [] = False"
| "fieldsLe (x # xs) (y # ys) = (x < y \<or> (x = y \<and> fieldsLe xs ys))"

definition dateLe :: "jsstring \<Rightarrow> jsstring \<Rightarrow> bool" where
  "dateLe a b = fieldsLe (dateFields a) (dateFields b)"

definition ordersDates :: "(jsstring \<Rightarrow> jsstring \<Rightarrow> int) \<Rightarrow> jsstring list \<Rightarrow> bool" where
  "ordersDates cmp ds = list_all (\<lambda>a. list_all (\<lambda>b. (cmp a b \<le> 0) = dateLe a b) ds) ds"

text \<open>
  A date written with leading zeros: four digits, a hyphen, two digits, a hyphen, two
  digits, as in the first ten characters of \<open>toISOString()\<close> for the years 0 to 9999.
\<close>

definition paddedDate :: "jsstring \<Rightarrow> bool" where
  "paddedDate s \<longleftrightarrow>
     length s = 10 \<and> s ! 4 = 45 \<and> s ! 7 = 45
     \<and> list_all isDigit (take 4 s @ take 2 (drop 5 s) @ drop 8 s)"

text \<open>The effort table in the words of the specification, on the rate in kcal per minute.\<close>

definition effortOfRate :: "rat \<Rightarrow> nat" where
  "effortOfRate kcalPerMinute =
     (if kcalPerMinute < 3 then 2
      else if kcalPerMinute < 5 then 3
      else if kcalPerMinute < 7 then 4
      else if kcalPerMinute < 9 then 5
      else if kcalPerMinute < 11 then 6
      else if kcalPerMinute < 13 then 7
      else if kcalPerMinute < 15 then 8
      else if kcalPerMinute < 18 then 9
      else 10)"

section \<open>An example host and example files\<close>

text \<open>
  The comparison of strings by code units, a consistent comparison function, stands for
  \<open>localeCompare\<close> in the examples; the dates are given for the strings that the
  examples use.
\<close>

fun compareUnits :: "jsstring \<Rightarrow> jsstring \<Rightarrow> int" where
  "compareUnits [] [] = 0"
| "compareUnits [] (y # ys) = - 1"
| "compareUnits (x # xs) [] = 1"
| "compareUnits (x # xs) (y # ys) =
     (if x < y then - 1 else if y < x then 1 else compareUnits xs ys)"

definition exampleHost :: host where
  "exampleHost =
     \<lparr>dateParse = map_of [(js ''2024-01-15'', 1705276800000), (js ''2024-01-14'', 1705190400000)],
      isoDate = (\<lambda>t. if t = 1705276800000 then js ''2024-01-15''
                     else if t = 1705190400000 then js ''2024-01-14'' else []),
      localeCompare = compareUnits\<rparr>"

definition ascii :: "string \<Rightarrow> 8 word list" where
  "ascii s = map of_char s"

definition docB :: string where
  \<open>docB = ''<Workout workoutActivityType="HKWorkoutActivityTypeRunning" duration="abc" durationUnit="sec" startDate="2024-01-14" endDate="2024-01-15"/>''\<close>

definition matchB :: rmatch where
  "matchB = (0, [js docB, js ''HKWorkoutActivityTypeRunning'', js ''abc'', js ''sec'',
                 js ''2024-01-14'', js ''2024-01-15''])"

definition sessionB :: WorkoutSession where
  "sessionB =
     \<lparr>sessionId = 0, name = js ''Run'',
      blocks = [\<lparr>blockId = 1, blockType = js ''cardio'', blockName = js ''Run'',
                 blockExercises = []\<rparr>],
      startedAt = 1705190400000, completedAt = 1705276800000, exercises = [],
      totalDuration = NaN, overallEffort = None, cardioType = Some (js ''run''),
      distance = None\<rparr>"

definition fileB :: File where
  "fileB = \<lparr>fileName = js ''export.xml'', content = ascii docB\<rparr>"




definition tagZ :: string where
  \<open>tagZ = ''<Workout workoutActivityType="HKWorkoutActivityTypeCycling" duration="30" durationUnit="min" startDate="2024-01-14" endDate="2024-01-15">''\<close>

definition docZ :: string where
  \<open>docZ = tagZ @ ''<WorkoutStatistics type="HKQuantityTypeIdentifierDistanceWalkingRunning" sum="0"/><WorkoutStatistics type="HKQuantityTypeIdentifierDistanceCycling" sum="5"/><WorkoutStatistics type="HKQuantityTypeIdentifierActiveEnergyBurned" sum="0"/></Workout>''\<close>

definition matchZ :: rmatch where
  "matchZ = (0, [js tagZ, js ''HKWorkoutActivityTypeCycling'', js ''30'', js ''min'',
                 js ''2024-01-14'', js ''2024-01-15''])"


definition fileM :: File where
  "fileM = \<lparr>fileName = js ''export.xml'', content = ascii ''<a/><b/>''\<rparr>"

definition yogaS :: string where
  \<open>yogaS = ''<Workout workoutActivityType="HKWorkoutActivityTypeYoga" duration="1" durationUnit="hr" startDate="2024-01-15" endDate="2024-01-15"/>''\<close>

definition rowingS :: string where
  \<open>rowingS = ''<Workout workoutActivityType="HKWorkoutActivityTypeRowing" duration="20" durationUnit="min" startDate="2024-01-14" endDate="2024-01-14"/>''\<close>

definition massS :: string where
  \<open>massS = ''<Record type="HKQuantityTypeIdentifierBodyMass" value="70" unit="kg" startDate="2024-01-15"/><Record type="HKQuantityTypeIdentifierBodyMass" value="154" unit="lb" startDate="2024-01-14"/>''\<close>

definition daysS :: string where
  \<open>daysS = ''<ActivitySummary dateComponents="2024-01-15" activeEnergyBurned="500.4" appleExerciseTime="30" appleStandHours="12"/><ActivitySummary dateComponents="2024-01-14" activeEnergyBurned="1" appleExerciseTime="2" appleStandHours="3"/>''\<close>

definition docS :: string where
  "docS = yogaS @ rowingS @ massS @ daysS"

definition fileS :: File where
  "fileS = \<lparr>fileName = js ''export.xml'', content = ascii docS\<rparr>"

definition matchYoga :: rmatch where
  "matchYoga = (0, [js yogaS, js ''HKWorkoutActivityTypeYoga'', js ''1'', js ''hr'',
                    js ''2024-01-15'', js ''2024-01-15''])"

definition matchRowing :: rmatch where
  "matchRowing = (133, [js rowingS, js ''HKWorkoutActivityTypeRowing'', js ''20'', js ''min'',
                        js ''2024-01-14'', js ''2024-01-14''])"

definition sessionYoga :: WorkoutSession where
  "sessionYoga =
     \<lparr>sessionId = 0, name = js ''Yoga'',
      blocks = [\<lparr>blockId = 1, blockType = js ''cooldown'', blockName = js ''Yoga'',
                 blockExercises = []\<rparr>],
      startedAt = 1705276800000, completedAt = 1705276800000, exercises = [],
      totalDuration = Val 3600, overallEffort = None, cardioType = None, distance = None\<rparr>"

definition sessionRowing :: WorkoutSession where
  "sessionRowing =
     \<lparr>sessionId = 2, name = js ''Rowing'',
      blocks = [\<lparr>blockId = 3, blockType = js ''cardio'', blockName = js ''Rowing'',
                 blockExercises = []\<rparr>],
      startedAt = 1705190400000, completedAt = 1705190400000, exercises = [],
      totalDuration = Val 1200, overallEffort = None, cardioType = None, distance = None\<rparr>"

definition metric15 :: BodyMetric where
  "metric15 = \<lparr>date = js ''2024-01-15'', source = js ''apple_health'',
                weight = Some (Val (1543 / 10)), bodyFat = None\<rparr>"

definition metric14 :: BodyMetric where
  "metric14 = \<lparr>date = js ''2024-01-14'', source = js ''apple_health'',
                weight = Some (Val 154), bodyFat = None\<rparr>"

definition day15 :: ActivityDay where
  "day15 = \<lparr>dayDate = js ''2024-01-15'', activeEnergy = Val 500, exerciseMinutes = Val 30,
             standHours = Val 12\<rparr>"

definition day14 :: ActivityDay where
  "day14 = \<lparr>dayDate = js ''2024-01-14'', activeEnergy = Val 1, exerciseMinutes = Val 2,
             standHours = Val 3\<rparr>"

definition fileU :: File where
  "fileU = \<lparr>fileName = js ''export.xml'',
             content = ascii ''<a/>'' @ [0xC3, 0xA9] @ ascii ''<b/>''\<rparr>"

definition fileBig :: File where
  "fileBig = \<lparr>fileName = js ''export.xml'',
               content = replicate (CHUNK_SIZE - 1) 0x20 @ [0xC3, 0xA9]\<rparr>"

definition massA :: string where
  \<open>massA = ''<Record type="HKQuantityTypeIdentifierBodyMass" value="70" unit="kg" startDate="2024-01-15"/>''\<close>

definition massB :: string where
  \<open>massB = ''<Record type="HKQuantityTypeIdentifierBodyMass" value="71" unit="kg" startDate="2024-01-15"/>''\<close>

definition fatC :: string where
  \<open>fatC = ''<Record type="HKQuantityTypeIdentifierBodyFatPercentage" value="0.2" startDate="2024-01-15"/>''\<close>

definition docF :: string where
  "docF = massA @ massB @ fatC"

definition fileF :: File where
  "fileF = \<lparr>fileName = js ''export.xml'', content = ascii docF\<rparr>"

definition matchF :: rmatch where
  "matchF = (186, [js fatC, js ''0.2'', js ''2024-01-15''])"

definition docD :: string where
  \<open>docD = ''<ActivitySummary dateComponents="2024-2-1" activeEnergyBurned="1" appleExerciseTime="2" appleStandHours="3"/><ActivitySummary dateComponents="2024-10-01" activeEnergyBurned="4" appleExerciseTime="5" appleStandHours="6"/>''\<close>

definition fileD :: File where
  "fileD = \<lparr>fileName = js ''export.xml'', content = ascii docD\<rparr>"

definition dayFeb :: ActivityDay where
  "dayFeb = \<lparr>dayDate = js ''2024-2-1'', activeEnergy = Val 1, exerciseMinutes = Val 2,
              standHours = Val 3\<rparr>"

definition dayOct :: ActivityDay where
  "dayOct = \<lparr>dayDate = js ''2024-10-01'', activeEnergy = Val 4, exerciseMinutes = Val 5,
              standHours = Val 6\<rparr>"

definition fileHalf :: File where
  "fileHalf = \<lparr>fileName = js ''export.xml'',
                content = replicate (CHUNK_SIZE - 2) 0x20 @ [0x2F, 0x3E] @ replicate CHUNK_SIZE 0x20\<rparr>"

definition yogaE :: string where
  \<open>yogaE = ''<Workout workoutActivityType="HKWorkoutActivityTypeYoga" duration="10" durationUnit="min" startDate="2024-01-14" endDate="2024-01-14"/>''\<close>

definition runE :: string where
  \<open>runE = ''<Workout workoutActivityType="HKWorkoutActivityTypeRunning" duration="1000" durationUnit="sec" startDate="2024-01-15" endDate="2024-01-15">''\<close>

definition statsE :: string where
  \<open>statsE = ''<WorkoutStatistics type="HKQuantityTypeIdentifierActiveEnergyBurned" sum="250"/></Workout>''\<close>

definition docE :: string where
  "docE = yogaE @ runE @ statsE"

definition fileE :: File where
  "fileE = \<lparr>fileName = js ''export.xml'', content = ascii docE\<rparr>"

definition matchYogaE :: rmatch where
  "matchYogaE = (0, [js yogaE, js ''HKWorkoutActivityTypeYoga'', js ''10'', js ''min'',
                     js ''2024-01-14'', js ''2024-01-14''])"

definition matchRunE :: rmatch where
  "matchRunE = (135, [js runE, js ''HKWorkoutActivityTypeRunning'', js ''1000'', js ''sec'',
                      js ''2024-01-15'', js ''2024-01-15''])"

definition sessionYogaE :: WorkoutSession where
  "sessionYogaE =
     \<lparr>sessionId = 0, name = js ''Yoga'',
      blocks = [\<lparr>blockId = 1, blockType = js ''cooldown'', blockName = js ''Yoga'',
                 blockExercises = []\<rparr>],
      startedAt = 1705190400000, completedAt = 1705190400000, exercises = [],
      totalDuration = Val 600, overallEffort = Some 10, cardioType = None, distance = None\<rparr>"

definition sessionRunE :: WorkoutSession where
  "sessionRunE =
     \<lparr>sessionId = 2, name = js ''Run'',
      blocks = [\<lparr>blockId = 3, blockType = js ''cardio'', blockName = js ''Run'',
                 blockExercises = []\<rparr>],
      startedAt = 1705276800000, completedAt = 1705276800000, exercises = [],
      totalDuration = Val 1000, overallEffort = Some 8, cardioType = Some (js ''run''),
      distance = None\<rparr>"

section \<open>Conversion and the fields of a session\<close>




text \<open>
  The effort is the table of the specification applied to the energy per minute as the
  program computes it, and a value from 2 to 10 for all numbers.
\<close>

lemma estimateEffort_rate:
  "estimateEffort a d =
     (case fdiv a (fdiv d (Val 60)) of Val k \<Rightarrow> effortOfRate k | NegInf \<Rightarrow> 2 | _ \<Rightarrow> 10)"
  by (cases "fdiv a (fdiv d (Val 60))")
     (simp_all add: estimateEffort_def effortOfRate_def Let_def)

lemma effortOfRate_range: "2 \<le> effortOfRate k \<and> effortOfRate k \<le> 10"
  by (simp add: effortOfRate_def)

lemma estimateEffort_range: "2 \<le> estimateEffort a d \<and> estimateEffort a d \<le> 10"
  by (simp add: estimateEffort_def Let_def)

lemma effortField_range: "effortField e d = Some k \<Longrightarrow> 2 \<le> k \<and> k \<le> 10"
  using estimateEffort_range
  by (auto simp: effortField_def Let_def split: option.splits if_splits)

lemma workoutFromMatch_fields:
  assumes "workoutFromMatch H chunk n m = Inr w"
  shows "newDateISO H (matchAt m 4) = Inr (startedAt w)"
    and "newDateISO H (matchAt m 5) = Inr (completedAt w)"
    and "totalDuration w =
           Math_round (durationSeconds (parseFloatOpt (matchAt m 2)) (strOf (matchAt m 3)))"
    and "overallEffort w =
           effortField
             (extractMetadataValue (workoutContext chunk m)
                (js ''HKQuantityTypeIdentifierActiveEnergyBurned''))
             (durationSeconds (parseFloatOpt (matchAt m 2)) (strOf (matchAt m 3)))"
    and "distance w =
           distanceField
             (orElse
               (extractMetadataValue (workoutContext chunk m)
                  (js ''HKQuantityTypeIdentifierDistanceWalkingRunning''))
               (extractMetadataValue (workoutContext chunk m)
                  (js ''HKQuantityTypeIdentifierDistanceCycling'')))"
  using assms
  by (auto simp: workoutFromMatch_def Let_def split: sum.splits)

lemma workoutFromMatch_total:
  assumes "newDateISO H (matchAt m 4) = Inr s" "newDateISO H (matchAt m 5) = Inr c"
  shows "\<exists>w. workoutFromMatch H chunk n m = Inr w"
  using assms by (simp add: workoutFromMatch_def Let_def)

lemma workoutFromMatch_error: "workoutFromMatch H chunk n m = Inl e \<Longrightarrow> e = RangeError"
  by (auto simp: workoutFromMatch_def Let_def newDateISO_def split: sum.splits option.splits)

lemma pushWorkouts_Inr:
  "pushWorkouts H chunk ws ms = Inr ws' \<Longrightarrow>
     \<exists>ss. ws' = ws @ ss
        \<and> list_all2 (\<lambda>m w. \<exists>n. workoutFromMatch H chunk n m = Inr w) ms ss"
proof (induction ms arbitrary: ws)
  case Nil
  then show ?case by simp
next
  case (Cons m ms)
  from Cons.prems obtain w where
    w: "workoutFromMatch H chunk (length ws) m = Inr w"
    and rest: "pushWorkouts H chunk (ws @ [w]) ms = Inr ws'"
    by (auto split: sum.splits)
  from Cons.IH [OF rest] obtain ss where
    "ws' = (ws @ [w]) @ ss"
    "list_all2 (\<lambda>m w. \<exists>n. workoutFromMatch H chunk n m = Inr w) ms ss"
    by blast
  with w show ?case
    by (intro exI [of _ "w # ss"]) auto
qed

lemma pushWorkouts_total:
  assumes "\<forall>m \<in> set ms. (\<exists>s. newDateISO H (matchAt m 4) = Inr s)
                        \<and> (\<exists>c. newDateISO H (matchAt m 5) = Inr c)"
  shows "\<exists>ws'. pushWorkouts H chunk ws ms = Inr ws'"
  using assms
proof (induction ms arbitrary: ws)
  case Nil
  then show ?case by simp
next
  case (Cons m ms)
  from Cons.prems obtain s c where
    "newDateISO H (matchAt m 4) = Inr s" "newDateISO H (matchAt m 5) = Inr c"
    by auto
  from workoutFromMatch_total [OF this] obtain w where
    "workoutFromMatch H chunk (length ws) m = Inr w"
    by blast
  with Cons show ?case by simp
qed

lemma pushWorkouts_error: "pushWorkouts H chunk ws ms = Inl e \<Longrightarrow> e = RangeError"
  by (induction ms arbitrary: ws) (auto split: sum.splits dest: workoutFromMatch_error)

section \<open>Rounding to binary64\<close>

lemma rne_of_int [simp]: "rne (of_int n) = n"
  by (simp add: rne_def)

lemma rne_bounds: "\<lfloor>q\<rfloor> \<le> rne q" "rne q \<le> \<lfloor>q\<rfloor> + 1"
  by (simp_all add: rne_def Let_def)

lemma rne_mono:
  assumes "x \<le> y"
  shows "rne x \<le> rne y"
proof (cases "\<lfloor>x\<rfloor> = \<lfloor>y\<rfloor>")
  case True
  have "x - of_int \<lfloor>x\<rfloor> \<le> y - of_int \<lfloor>y\<rfloor>"
    using assms True by simp
  thus ?thesis
    using True by (auto simp: rne_def Let_def)
next
  case False
  have "\<lfloor>x\<rfloor> \<le> \<lfloor>y\<rfloor>" using assms by (rule floor_mono)
  with False have "\<lfloor>x\<rfloor> + 1 \<le> \<lfloor>y\<rfloor>" by simp
  with rne_bounds(2) [of x] rne_bounds(1) [of y] show ?thesis by linarith
qed

lemma pow2_Suc: "(2::rat) powi (n + 1) = 2 * 2 powi n"
  by (simp add: power_int_add)

lemma pow2_pos [simp]: "0 < (2::rat) powi n"
  by (simp add: zero_less_power_int)

lemma pow2_step:
  assumes "i < j"
  shows "(2::rat) ^ 53 * 2 powi i \<le> 2 ^ 52 * 2 powi j"
proof -
  have "(2::rat) powi (i + 1) \<le> 2 powi j"
    using assms by (intro power_int_increasing) auto
  thus ?thesis by (simp add: pow2_Suc)
qed

text \<open>
  The exponent that \<open>binade\<close> returns is at least \<open>-1074\<close>; the magnitude scaled by it is
  below \<open>2 ^ 53\<close>, and from \<open>2 ^ 52\<close> on unless the exponent is \<open>-1074\<close>.
\<close>

lemma binade_spec:
  assumes "0 \<le> m" "- 1074 \<le> e"
  shows "- 1074 \<le> binade m e
         \<and> m * 2 powi (e - binade m e) < 2 ^ 53
         \<and> (- 1074 < binade m e \<longrightarrow> 2 ^ 52 \<le> m * 2 powi (e - binade m e))"
  using assms
proof (induction m e rule: binade.induct)
  case (1 m e)
  show ?case
  proof (cases "2 ^ 53 \<le> m")
    case True
    have eq: "binade m e = binade (m / 2) (e + 1)"
      using True by (subst binade.simps) simp
    define k where "k = binade (m / 2) (e + 1)"
    have "(2::rat) powi (e + 1 - k) = 2 * 2 powi (e - k)"
      using pow2_Suc [of "e - k"] by (simp add: algebra_simps)
    hence eq2: "m / 2 * 2 powi (e + 1 - k) = m * 2 powi (e - k)"
      by simp
    have "- 1074 \<le> k \<and> m / 2 * 2 powi (e + 1 - k) < 2 ^ 53
          \<and> (- 1074 < k \<longrightarrow> 2 ^ 52 \<le> m / 2 * 2 powi (e + 1 - k))"
      unfolding k_def using 1(3,4) by (intro 1(1) [OF True]) auto
    thus ?thesis
      unfolding eq k_def [symmetric] eq2 .
  next
    case False
    show ?thesis
    proof (cases "m < 2 ^ 52 \<and> - 1074 < e")
      case True
      have eq: "binade m e = binade (m * 2) (e - 1)"
        using True False by (subst binade.simps) simp
      define k where "k = binade (m * 2) (e - 1)"
      have "(2::rat) powi (e - k) = 2 * 2 powi (e - 1 - k)"
        using pow2_Suc [of "e - 1 - k"] by (simp add: algebra_simps)
      hence eq2: "m * 2 * 2 powi (e - 1 - k) = m * 2 powi (e - k)"
        by simp
      have "- 1074 \<le> k \<and> m * 2 * 2 powi (e - 1 - k) < 2 ^ 53
            \<and> (- 1074 < k \<longrightarrow> 2 ^ 52 \<le> m * 2 * 2 powi (e - 1 - k))"
        unfolding k_def using 1(3,4) True by (intro 1(2) [OF False True]) auto
      thus ?thesis
        unfolding eq k_def [symmetric] eq2 .
    next
      case F2: False
      have eq: "binade m e = e"
        using False F2 by (subst binade.simps) auto
      show ?thesis
        using False F2 1(3,4) by (auto simp: eq)
    qed
  qed
qed

lemma binade_abs:
  "- 1074 \<le> binade \<bar>q\<bar> 0"
  "\<bar>q\<bar> < 2 ^ 53 * 2 powi (binade \<bar>q\<bar> 0)"
  "- 1074 < binade \<bar>q\<bar> 0 \<Longrightarrow> 2 ^ 52 * 2 powi (binade \<bar>q\<bar> 0) \<le> \<bar>q\<bar>"
  using binade_spec [of "\<bar>q\<bar>" 0]
  by (simp_all add: power_int_minus field_simps)

lemma of_int_pow2_le: "2 ^ n \<le> k \<Longrightarrow> (2::rat) ^ n \<le> of_int k"
  by (metis of_int_le_iff of_int_numeral of_int_power)

lemma of_int_le_pow2: "k \<le> 2 ^ n \<Longrightarrow> of_int k \<le> (2::rat) ^ n"
  by (metis of_int_le_iff of_int_numeral of_int_power)

text \<open>Rounding keeps the order of the numbers that are not negative.\<close>

lemma fl_mono:
  assumes "0 \<le> x" "x \<le> y"
  shows "fl x \<le> fl y"
proof -
  define a where "a = binade \<bar>x\<bar> 0"
  define b where "b = binade \<bar>y\<bar> 0"
  note A = binade_abs [of x, folded a_def]
  note B = binade_abs [of y, folded b_def]
  have ax: "\<bar>x\<bar> = x" and ay: "\<bar>y\<bar> = y" using assms by simp_all
  have flx: "fl x = of_int (rne (x / 2 powi a)) * 2 powi a"
    and fly: "fl y = of_int (rne (y / 2 powi b)) * 2 powi b"
    by (simp_all add: fl_def a_def b_def Let_def)
  consider "a = b" | "a < b" | "b < a" by linarith
  thus ?thesis
  proof cases
    case 1
    have "x / 2 powi b \<le> y / 2 powi b"
      using assms by (simp add: divide_right_mono)
    hence "rne (x / 2 powi b) \<le> rne (y / 2 powi b)" by (rule rne_mono)
    thus ?thesis
      unfolding flx fly 1 by (simp add: mult_right_mono)
  next
    case 2
    hence "- 1074 < b" using A(1) by simp
    from B(3) [OF this] have "2 ^ 52 \<le> y / 2 powi b"
      by (simp add: ay field_simps)
    hence "rne (of_int (2 ^ 52)) \<le> rne (y / 2 powi b)"
      by (intro rne_mono) simp
    hence "(2::rat) ^ 52 \<le> of_int (rne (y / 2 powi b))"
      unfolding rne_of_int by (rule of_int_pow2_le)
    hence low: "2 ^ 52 * 2 powi b \<le> fl y"
      unfolding fly by (simp add: mult_right_mono)
    have "x / 2 powi a \<le> 2 ^ 53"
      using A(2) by (simp add: ax field_simps)
    hence "rne (x / 2 powi a) \<le> rne (of_int (2 ^ 53))"
      by (intro rne_mono) simp
    hence "of_int (rne (x / 2 powi a)) \<le> (2::rat) ^ 53"
      unfolding rne_of_int by (rule of_int_le_pow2)
    hence "fl x \<le> 2 ^ 53 * 2 powi a"
      unfolding flx by (simp add: mult_right_mono)
    with low pow2_step [OF 2] show ?thesis by linarith
  next
    case 3
    hence "- 1074 < a" using B(1) by simp
    from A(3) [OF this] B(2) pow2_step [OF 3] assms show ?thesis
      by (simp add: ax ay)
  qed
qed

text \<open>
  An integer of magnitude below \<open>2 ^ 53\<close> times a power of two with an exponent from
  \<open>-1074\<close> on is a value of the grid: rounding leaves it as it is.
\<close>

lemma fl_dyadic:
  assumes "\<bar>k\<bar> < 2 ^ 53" "- 1074 \<le> j"
  shows "fl (of_int k * 2 powi j) = of_int k * 2 powi j"
proof -
  define q :: rat where "q = of_int k * 2 powi j"
  define b where "b = binade \<bar>q\<bar> 0"
  note B = binade_abs [of q, folded b_def]
  have absq: "\<bar>q\<bar> = of_int \<bar>k\<bar> * 2 powi j"
    by (simp add: q_def abs_mult)
  have "b \<le> j"
  proof (rule ccontr)
    assume "\<not> b \<le> j"
    hence lt: "j < b" by simp
    hence "- 1074 < b" using assms(2) by simp
    from B(3) [OF this] have "2 ^ 52 * 2 powi b \<le> (of_int \<bar>k\<bar> :: rat) * 2 powi j"
      by (simp add: absq)
    moreover have "(of_int \<bar>k\<bar> :: rat) < 2 ^ 53"
      using assms(1) by (metis of_int_less_iff of_int_numeral of_int_power)
    hence "of_int \<bar>k\<bar> * 2 powi j < 2 ^ 53 * (2::rat) powi j"
      by (simp add: mult_strict_right_mono)
    ultimately show False
      using pow2_step [OF lt] by linarith
  qed
  then obtain d where d: "j = b + int d"
    by (metis zle_iff_zadd)
  have "q / 2 powi b = of_int (k * 2 ^ d)"
    by (simp add: q_def d power_int_add)
  hence "rne (q / 2 powi b) = k * 2 ^ d"
    by (simp only: rne_of_int)
  hence "fl q = of_int (k * 2 ^ d) * 2 powi b"
    by (simp add: fl_def b_def Let_def)
  also have "\<dots> = q"
    by (simp add: q_def d power_int_add)
  finally show ?thesis by (simp add: q_def)
qed

lemma fl_of_int: "\<bar>k\<bar> < 2 ^ 53 \<Longrightarrow> fl (of_int k) = of_int k"
  using fl_dyadic [of k 0] by simp

lemma fl_numeral: "numeral k < (2::int) ^ 53 \<Longrightarrow> fl (numeral k) = numeral k"
  using fl_of_int [of "numeral k"] by simp

lemma fl_zero: "fl 0 = 0"
  using fl_of_int [of 0] by simp

lemma fl_bounds:
  assumes "0 \<le> q" "q \<le> of_int k" "k < 2 ^ 53"
  shows "0 \<le> fl q" "fl q \<le> of_int k"
proof -
  have "0 \<le> k" using assms(1,2) by linarith
  hence "fl (of_int k) = of_int k"
    using assms(3) by (intro fl_of_int) simp
  with fl_mono [OF assms(1,2)] show "fl q \<le> of_int k" by simp
  show "0 \<le> fl q" using fl_mono [of 0 q] assms(1) fl_zero by simp
qed

lemma binary64_bounded:
  assumes "0 \<le> q" "q \<le> of_int k" "k < 2 ^ 53"
  shows "binary64 (Val q) = Val (fl q)"
proof -
  have "(of_int k :: rat) \<le> 2 ^ 53"
    using assms(3) by (intro of_int_le_pow2) simp
  moreover have "(2::rat) ^ 53 < 2 ^ 1024"
    by (rule power_strict_increasing) simp_all
  ultimately have "fl q < 2 ^ 1024" "- (2 ^ 1024) < fl q"
    using fl_bounds [OF assms] by linarith+
  thus ?thesis by (simp add: Let_def)
qed

text \<open>Rules that compute \<open>fl\<close> on a numeral.\<close>

lemma binade_up: "2 ^ 53 \<le> m \<Longrightarrow> binade m e = binade (m / 2) (e + 1)"
  by (subst binade.simps) simp

lemma binade_down: "m < 2 ^ 52 \<Longrightarrow> - 1074 < e \<Longrightarrow> binade m e = binade (m * 2) (e - 1)"
  by (subst binade.simps) simp

lemma binade_stop: "2 ^ 52 \<le> m \<Longrightarrow> m < 2 ^ 53 \<Longrightarrow> binade m e = e"
  by (subst binade.simps) simp

lemma floor_rat_numeral: "\<lfloor>(numeral a :: rat) / numeral b\<rfloor> = numeral a div numeral b"
  using floor_divide_of_int_eq [of "numeral a" "numeral b", where ?'a = rat] by simp

lemma binary64_Val: "fl q < 2 ^ 53 \<Longrightarrow> - (2 ^ 53) < fl q \<Longrightarrow> binary64 (Val q) = Val (fl q)"
proof -
  assume r: "fl q < 2 ^ 53" "- (2 ^ 53) < fl q"
  have "(2::rat) ^ 53 < 2 ^ 1024"
    by (rule power_strict_increasing) simp_all
  with r have "fl q < 2 ^ 1024" "- (2 ^ 1024) < fl q"
    by linarith+
  then show ?thesis by (simp add: Let_def)
qed

declare binary64.simps(1) [simp del]

lemmas fl_ev = fdiv_def fmul_def binary64_Val fl_def binade_up binade_down binade_stop rne_def
  Let_def power_int_minus floor_rat_numeral

section \<open>Sessions of a fragment\<close>

lemma Math_round_NaN_duration: "Math_round (durationSeconds NaN u) = NaN"
  by (simp add: durationSeconds_def)

lemma extractWorkouts_sessions:
  assumes "extractWorkoutsFromChunk H chunk ws = Inr ws'"
  shows "\<exists>ss. ws' = ws @ ss
           \<and> list_all2 (\<lambda>m w. \<exists>n. workoutFromMatch H chunk n m = Inr w)
                (execAll WORKOUT_REGEX chunk 0) ss"
  using assms pushWorkouts_Inr by (simp add: extractWorkoutsFromChunk_def)

text \<open>
  Claim C1, as amended. A workout record whose duration is not a number is not skipped:
  when the start and end dates of all matched records are valid, the extractor returns
  normally and appends one session for every matched record, and a record whose duration
  does not convert to a number gives a session whose \<open>totalDuration\<close> is NaN. The
  records after it in the fragment are processed as well.
\<close>

theorem malformed_duration_kept:
  assumes "\<forall>m \<in> set (execAll WORKOUT_REGEX chunk 0).
             dateParse H (strOf (matchAt m 4)) \<noteq> None \<and> matchAt m 4 \<noteq> None
             \<and> dateParse H (strOf (matchAt m 5)) \<noteq> None \<and> matchAt m 5 \<noteq> None"
  shows "\<exists>ss. extractWorkoutsFromChunk H chunk ws = Inr (ws @ ss)
           \<and> list_all2
                (\<lambda>m w. parseFloatOpt (matchAt m 2) = NaN \<longrightarrow> totalDuration w = NaN)
                (execAll WORKOUT_REGEX chunk 0) ss"
proof -
  have "\<forall>m \<in> set (execAll WORKOUT_REGEX chunk 0).
          (\<exists>s. newDateISO H (matchAt m 4) = Inr s) \<and> (\<exists>c. newDateISO H (matchAt m 5) = Inr c)"
    using assms by (auto simp: newDateISO_def strOf_def split: option.splits)
  from pushWorkouts_total [OF this] obtain ws' where
    r: "extractWorkoutsFromChunk H chunk ws = Inr ws'"
    by (auto simp: extractWorkoutsFromChunk_def)
  from extractWorkouts_sessions [OF r] obtain ss where
    ss: "ws' = ws @ ss"
    and all: "list_all2 (\<lambda>m w. \<exists>n. workoutFromMatch H chunk n m = Inr w)
                (execAll WORKOUT_REGEX chunk 0) ss"
    by blast
  have "list_all2 (\<lambda>m w. parseFloatOpt (matchAt m 2) = NaN \<longrightarrow> totalDuration w = NaN)
          (execAll WORKOUT_REGEX chunk 0) ss"
    using all
    by (rule list_all2_mono)
       (auto dest: workoutFromMatch_fields(3) simp: Math_round_NaN_duration)
  with r ss show ?thesis by blast
qed





section \<open>Scanning a string\<close>

lemma regexExec_Nil: "regexExec (Lit (p # ps) # r) [] i = None"
  by simp

lemma regexExec_last: "regexExec (Lit (p # p2 # ps) # r) [c] i = None"
  by simp

lemma regexExec_skip:
  "p \<noteq> c \<Longrightarrow> regexExec (Lit (p # ps) # r) (c # t) i = regexExec (Lit (p # ps) # r) t (Suc i)"
  by simp

lemma regexExec_skip2:
  "p2 \<noteq> c2 \<Longrightarrow>
     regexExec (Lit (c # p2 # ps) # r) (c # c2 # t) i
       = regexExec (Lit (c # p2 # ps) # r) (c2 # t) (Suc i)"
  by simp

lemma regexExec_hit:
  "regexExec (Lit (c # c2 # ps) # r) (c # c2 # t) i =
     (case rxm (Lit ps # r) t of
        Some (gs, rest) \<Rightarrow> Some (i, take (length (c # c2 # t) - length rest) (c # c2 # t) # gs)
      | None \<Rightarrow> regexExec (Lit (c # c2 # ps) # r) (c2 # t) (Suc i))"
  by simp

lemma execAll_Nil: "execAll (Lit (p # ps) # r) [] i = []"
  by (subst execAll.simps) simp

lemma execAll_last: "execAll (Lit (p # p2 # ps) # r) [c] i = []"
  by (subst execAll.simps) (simp add: execAll_Nil)

lemma execAll_skip:
  "p \<noteq> c \<Longrightarrow> execAll (Lit (p # ps) # r) (c # t) i = execAll (Lit (p # ps) # r) t (Suc i)"
  by (subst execAll.simps) simp

lemma execAll_skip2:
  "p2 \<noteq> c2 \<Longrightarrow>
     execAll (Lit (c # p2 # ps) # r) (c # c2 # t) i
       = execAll (Lit (c # p2 # ps) # r) (c2 # t) (Suc i)"
  by (subst execAll.simps) simp

lemma execAll_hit:
  "execAll (Lit (c # c2 # ps) # r) (c # c2 # t) i =
     (case rxm (Lit ps # r) t of
        Some (gs, rest) \<Rightarrow>
          if length rest < length (c # c2 # t) then
            (i, take (length (c # c2 # t) - length rest) (c # c2 # t) # gs)
              # execAll (Lit (c # c2 # ps) # r) rest (i + (length (c # c2 # t) - length rest))
          else []
      | None \<Rightarrow> execAll (Lit (c # c2 # ps) # r) (c2 # t) (Suc i))"
  by (subst execAll.simps) (simp split: option.splits)

lemma findFirst_Nil: "findFirst (p # ps) [] i = - 1"
  by simp

lemma findFirst_skip:
  "p \<noteq> c \<Longrightarrow> findFirst (p # ps) (c # t) i = findFirst (p # ps) t (Suc i)"
  by (simp add: startsWith_def)

lemma findFirst_hit:
  "findFirst (c # ps) (c # t) i =
     (if stripPrefix ps t \<noteq> None then int i else findFirst (c # ps) t (Suc i))"
  by (simp add: startsWith_def)

lemma rxm_Lazy_skip:
  "x \<noteq> c \<Longrightarrow> p \<noteq> x \<Longrightarrow>
     rxm (LazyNot c # Lit (p # ps) # r) (x # t) = rxm (LazyNot c # Lit (p # ps) # r) t"
  by simp

lemmas scan_rules =
  regexExec_Nil regexExec_last regexExec_skip regexExec_skip2 regexExec_hit
  execAll_Nil execAll_last execAll_skip execAll_skip2 execAll_hit
  findFirst_Nil findFirst_skip findFirst_hit

lemmas scan_defs = regexExec.simps findFirst.simps

section \<open>The chunk loop\<close>

lemma scanLoop_elim:
  assumes "scanLoop H C file offset rmd acc = (evs, r)"
  obtains
    (stop) "\<not> (offset < fileSize file \<and> 0 < C)" "evs = []" "r = Inr acc"
  | (carry) tx where
      "offset < fileSize file" "0 < C"
      "scanLoop H C file (offset + C) tx acc = (evs, r)"
  | (abort) p err where
      "offset < fileSize file" "0 < C"
      "evs = [Fragment (min (offset + C) (fileSize file)) p]" "r = Inl err"
      "extractAll H p acc = Inl err"
  | (emit) p rmd' acc' evs' where
      "offset < fileSize file" "0 < C"
      "extractAll H p acc = Inr acc'"
      "scanLoop H C file (offset + C) rmd' acc' = (evs', r)"
      "evs = Fragment (min (offset + C) (fileSize file)) p
               # Progress (parsingReport (min (offset + C) (fileSize file)) (fileSize file) acc')
               # evs'"
proof (cases "offset < fileSize file \<and> 0 < C")
  case False
  with assms have "evs = []" "r = Inr acc"
    by (simp_all add: scanLoop.simps)
  with False show ?thesis by (rule stop)
next
  case True
  define e where "e = min (offset + C) (fileSize file)"
  define tx where "tx = rmd @ utf8_decode (slice (content file) offset e)"
  define sp where "sp = (if e < fileSize file then safeSplit tx else Some (tx, []))"
  have step: "scanLoop H C file offset rmd acc =
    (case sp of
       None \<Rightarrow> scanLoop H C file (offset + C) tx acc
     | Some (processable, remainder') \<Rightarrow>
         (case extractAll H processable acc of
            Inl err \<Rightarrow> ([Fragment e processable], Inl err)
          | Inr acc' \<Rightarrow>
              (case scanLoop H C file (offset + C) remainder' acc' of
                 (evs, r) \<Rightarrow>
                   (Fragment e processable
                      # Progress (parsingReport e (fileSize file) acc') # evs, r))))"
    by (subst scanLoop.simps) (simp only: Let_def e_def tx_def sp_def True if_True simp_thms)
  show ?thesis
  proof (cases sp)
    case None
    with step assms have "scanLoop H C file (offset + C) tx acc = (evs, r)"
      by simp
    with True show ?thesis by (intro carry) auto
  next
    case (Some pr)
    obtain p rmd' where pr: "pr = (p, rmd')" by (cases pr)
    show ?thesis
    proof (cases "extractAll H p acc")
      case (Inl err)
      with step assms Some pr have "evs = [Fragment e p]" "r = Inl err"
        by simp_all
      with True Inl show ?thesis unfolding e_def by (intro abort) auto
    next
      case (Inr acc')
      obtain evs' r' where rec: "scanLoop H C file (offset + C) rmd' acc' = (evs', r')"
        by (cases "scanLoop H C file (offset + C) rmd' acc'")
      with step assms Some pr Inr have
        "evs = Fragment e p # Progress (parsingReport e (fileSize file) acc') # evs'" "r = r'"
        by simp_all
      with True Inr rec show ?thesis unfolding e_def by (intro emit) auto
    qed
  qed
qed

lemma unit_rounding:
  assumes "0 \<le> q" "q \<le> 1"
  shows "binary64 (Val q) = Val (fl q)" "0 \<le> fl q" "fl q \<le> 1"
  using binary64_bounded [of q 1] fl_bounds [of q 1] assms by simp_all

lemma progressPercent_Val:
  assumes "0 < n" "e \<le> n"
  shows "progressPercent e n = Val (of_int \<lfloor>fl (fl (of_nat e / of_nat n) * 95) + 1 / 2\<rfloor>)"
    and "0 \<le> fl (fl (of_nat e / of_nat n) * 95)"
    and "fl (fl (of_nat e / of_nat n) * 95) \<le> 95"
proof -
  define q :: rat where "q = of_nat e / of_nat n"
  have q: "0 \<le> q" "q \<le> 1"
    using assms by (simp_all add: q_def divide_le_eq)
  note u = unit_rounding [OF q]
  have p: "0 \<le> fl q * 95" "fl q * 95 \<le> of_int 95"
    using u(2,3) by simp_all
  have k: "(95::int) < 2 ^ 53" by simp
  note b = binary64_bounded [OF p k] fl_bounds [OF p k]
  show "0 \<le> fl (fl (of_nat e / of_nat n) * 95)" "fl (fl (of_nat e / of_nat n) * 95) \<le> 95"
    using b(2,3) by (simp_all add: q_def)
  have "fdiv (Val (of_nat e)) (Val (of_nat n)) = Val (fl q)"
    using assms(1) u(1) by (simp add: fdiv_def q_def)
  thus "progressPercent e n = Val (of_int \<lfloor>fl (fl (of_nat e / of_nat n) * 95) + 1 / 2\<rfloor>)"
    using b(1) by (simp add: progressPercent_def fmul_def q_def)
qed

lemma percent_mono:
  assumes "0 < n" "e \<le> e'" "e' \<le> n"
  shows "fl (fl (of_nat e / of_nat n) * 95) \<le> fl (fl (of_nat e' / of_nat n) * 95)"
proof -
  have a: "(0::rat) \<le> of_nat e / of_nat n" by simp
  have "(of_nat e :: rat) / of_nat n \<le> of_nat e' / of_nat n"
    using assms by (simp add: divide_right_mono)
  from fl_mono [OF a this] have "fl (of_nat e / of_nat n) * 95 \<le> fl (of_nat e' / of_nat n) * 95"
    by simp
  moreover have "0 \<le> fl (of_nat e / of_nat n) * 95"
    using fl_mono [of 0 "of_nat e / of_nat n"] fl_zero by simp
  ultimately show ?thesis
    by (intro fl_mono)
qed

lemma progressPercent_le_95:
  assumes "0 < n" "e \<le> n"
  shows "jle (progressPercent e n) (Val 95)"
proof -
  have "fl (fl (of_nat e / of_nat n) * 95) + 1 / 2 < 96"
    using progressPercent_Val(3) [OF assms] by simp
  then have "\<lfloor>fl (fl (of_nat e / of_nat n) * 95) + 1 / 2\<rfloor> < 96"
    by (simp add: floor_less_iff)
  then have "\<lfloor>fl (fl (of_nat e / of_nat n) * 95) + 1 / 2\<rfloor> \<le> 95"
    by simp
  then have "(of_int \<lfloor>fl (fl (of_nat e / of_nat n) * 95) + 1 / 2\<rfloor> :: rat) \<le> 95"
    by (metis of_int_le_iff of_int_numeral)
  then show ?thesis
    by (simp add: progressPercent_Val(1) [OF assms])
qed

lemma progressPercent_ge_0:
  assumes "0 < n" "e \<le> n"
  shows "jle (Val 0) (progressPercent e n)"
proof -
  have "0 \<le> fl (fl (of_nat e / of_nat n) * 95) + 1 / 2"
    using progressPercent_Val(2) [OF assms] by simp
  then have "0 \<le> \<lfloor>fl (fl (of_nat e / of_nat n) * 95) + 1 / 2\<rfloor>"
    by simp
  then show ?thesis
    by (simp add: progressPercent_Val(1) [OF assms])
qed

lemma progressPercent_mono:
  assumes "0 < n" "e \<le> e'" "e' \<le> n"
  shows "jle (progressPercent e n) (progressPercent e' n)"
proof -
  have e: "e \<le> n" using assms by simp
  have "fl (fl (of_nat e / of_nat n) * 95) + 1 / 2 \<le> fl (fl (of_nat e' / of_nat n) * 95) + 1 / 2"
    using percent_mono [OF assms] by simp
  then have "\<lfloor>fl (fl (of_nat e / of_nat n) * 95) + 1 / 2\<rfloor> \<le> \<lfloor>fl (fl (of_nat e' / of_nat n) * 95) + 1 / 2\<rfloor>"
    by (rule floor_mono)
  then show ?thesis
    by (simp add: progressPercent_Val(1) [OF assms(1) e] progressPercent_Val(1) [OF assms(1,3)])
qed

lemma parsingReport_fields:
  "phase (parsingReport e n acc) = Parsing" "percent (parsingReport e n acc) = progressPercent e n"
  by (simp_all add: parsingReport_def split: prod.splits)

lemma scanLoop_reports:
  assumes "scanLoop H C file offset rmd acc = (evs, r)"
  shows "reportsFollowFragments (fileSize file) evs
         \<and> (\<forall>acc'. r = Inr acc' \<longrightarrow> (\<forall>d. reportsFollowFragments (fileSize file) (evs @ [Progress d])))"
  using assms
proof (induction "fileSize file - offset" arbitrary: offset rmd acc evs rule: less_induct)
  case less
  from less.prems show ?case
  proof (cases rule: scanLoop_elim)
    case stop
    then show ?thesis by simp
  next
    case (carry tx)
    then show ?thesis
      using less.hyps [of "offset + C" tx acc evs] by simp
  next
    case (abort p err)
    then show ?thesis by simp
  next
    case (emit p rmd' acc' evs')
    have "reportsFollowFragments (fileSize file) evs'
          \<and> (\<forall>acc'. r = Inr acc' \<longrightarrow> (\<forall>d. reportsFollowFragments (fileSize file) (evs' @ [Progress d])))"
      using emit less.hyps [of "offset + C" rmd' acc' evs'] by simp
    moreover have "jle (progressPercent (min (offset + C) (fileSize file)) (fileSize file)) (Val 95)"
      using emit by (intro progressPercent_le_95) auto
    ultimately show ?thesis
      using emit by (simp add: parsingReport_fields) (simp add: progressPercent_def)
  qed
qed

lemma scanLoop_percents:
  assumes "scanLoop H C file offset rmd acc = (evs, r)"
  shows "sorted_wrt jle (map percent (progressOf evs))
         \<and> (\<forall>q \<in> set (progressOf evs).
               phase q = Parsing \<and> jle (percent q) (Val 95) \<and> jle (Val 0) (percent q)
               \<and> (\<exists>e. min (offset + C) (fileSize file) \<le> e \<and> e \<le> fileSize file
                      \<and> percent q = progressPercent e (fileSize file)))"
  using assms
proof (induction "fileSize file - offset" arbitrary: offset rmd acc evs rule: less_induct)
  case less
  let ?n = "fileSize file"
  from less.prems show ?case
  proof (cases rule: scanLoop_elim)
    case stop
    then show ?thesis by simp
  next
    case (carry tx)
    have ih: "sorted_wrt jle (map percent (progressOf evs))
         \<and> (\<forall>q \<in> set (progressOf evs).
               phase q = Parsing \<and> jle (percent q) (Val 95) \<and> jle (Val 0) (percent q)
               \<and> (\<exists>e. min (offset + C + C) ?n \<le> e \<and> e \<le> ?n
                      \<and> percent q = progressPercent e ?n))"
      using carry less.hyps [of "offset + C" tx acc evs] by simp
    have "min (offset + C) ?n \<le> min (offset + C + C) ?n" by simp
    with ih show ?thesis
      by (meson order_trans)
  next
    case (abort p err)
    then show ?thesis by simp
  next
    case (emit p rmd' acc' evs')
    let ?e = "min (offset + C) ?n"
    have ih: "sorted_wrt jle (map percent (progressOf evs'))
         \<and> (\<forall>q \<in> set (progressOf evs').
               phase q = Parsing \<and> jle (percent q) (Val 95) \<and> jle (Val 0) (percent q)
               \<and> (\<exists>e. min (offset + C + C) ?n \<le> e \<and> e \<le> ?n
                      \<and> percent q = progressPercent e ?n))"
      using emit less.hyps [of "offset + C" rmd' acc' evs'] by simp
    have n: "0 < ?n" using emit by simp
    have le: "?e \<le> min (offset + C + C) ?n" by simp
    have head: "\<forall>q \<in> set (progressOf evs'). jle (progressPercent ?e ?n) (percent q)"
    proof
      fix q assume "q \<in> set (progressOf evs')"
      with ih obtain e where "min (offset + C + C) ?n \<le> e" "e \<le> ?n"
        "percent q = progressPercent e ?n"
        by blast
      with le n show "jle (progressPercent ?e ?n) (percent q)"
        by (simp add: progressPercent_mono)
    qed
    have rest: "\<forall>q \<in> set (progressOf evs').
               phase q = Parsing \<and> jle (percent q) (Val 95) \<and> jle (Val 0) (percent q)
               \<and> (\<exists>e. ?e \<le> e \<and> e \<le> ?n \<and> percent q = progressPercent e ?n)"
      using ih le by (meson order_trans)
    have this_one: "jle (progressPercent ?e ?n) (Val 95)" "jle (Val 0) (progressPercent ?e ?n)"
      using n by (simp_all add: progressPercent_le_95 progressPercent_ge_0)
    have "\<exists>e. ?e \<le> e \<and> e \<le> ?n \<and> progressPercent ?e ?n = progressPercent e ?n"
      by (intro exI [of _ ?e]) simp
    with ih head rest this_one emit show ?thesis
      by (simp add: parsingReport_fields)
  qed
qed

section \<open>Sorting and progress\<close>

lemma set_insertBy: "set (insertBy cmp x ys) = insert x (set ys)"
  by (induction ys) auto

lemma insertBy_sorted:
  assumes "consistent cmp" "sorted_wrt (\<lambda>a b. cmp a b \<le> 0) ys"
  shows "sorted_wrt (\<lambda>a b. cmp a b \<le> 0) (insertBy cmp x ys)"
  using assms(2)
proof (induction ys)
  case Nil
  then show ?case by simp
next
  case (Cons y ys)
  have total: "\<And>a b. cmp a b \<le> 0 \<or> cmp b a \<le> 0"
    and trans: "\<And>a b c. cmp a b \<le> 0 \<Longrightarrow> cmp b c \<le> 0 \<Longrightarrow> cmp a c \<le> 0"
    using assms(1) unfolding consistent_def by blast+
  show ?case
  proof (cases "cmp x y \<le> 0")
    case True
    then have "\<forall>z \<in> set (y # ys). cmp x z \<le> 0"
      using Cons.prems trans by auto
    with True Cons.prems show ?thesis by simp
  next
    case False
    then have "cmp y x \<le> 0" using total by blast
    with False Cons show ?thesis
      by (auto simp: set_insertBy)
  qed
qed

lemma sortBy_sorted:
  assumes "consistent cmp"
  shows "sorted_wrt (\<lambda>a b. cmp a b \<le> 0) (sortBy cmp xs)"
proof (induction xs)
  case Nil
  then show ?case by (simp add: sortBy_def)
next
  case (Cons x xs)
  then show ?case
    using insertBy_sorted [OF assms] by (simp add: sortBy_def)
qed

lemma consistent_key: "consistent cmp \<Longrightarrow> consistent (\<lambda>a b. cmp (f a) (f b))"
  unfolding consistent_def by blast

lemma consistent_diff: "consistent (\<lambda>a b. (f a :: int) - f b)"
  unfolding consistent_def by auto

lemma parse_result:
  assumes "snd (parseHealthExportChunked H C file) = Inr res"
  shows "\<exists>evs ws metrics days d0 d1.
           scanLoop H C file 0 [] ([], [], []) = (evs, Inr (ws, metrics, days))
           \<and> fst (parseHealthExportChunked H C file)
               = Progress \<lparr>phase = Parsing, percent = Val 0, detail = d0\<rparr> # evs
                   @ [Progress \<lparr>phase = Done, percent = Val 100, detail = d1\<rparr>]
           \<and> res = \<lparr>workouts = sortBy (\<lambda>a b. startedAt a - startedAt b) ws,
                     bodyMetrics = sortBy (\<lambda>a b. localeCompare H (date a) (date b)) (map snd metrics),
                     activityDays = sortBy (\<lambda>a b. localeCompare H (dayDate a) (dayDate b)) days\<rparr>"
proof -
  let ?low = "toLowerCase (fileName file)"
  have z: "\<not> endsWith ?low (js ''.zip'')"
  proof
    assume "endsWith ?low (js ''.zip'')"
    then have "\<exists>e. snd (parseHealthExportChunked H C file) = Inl e"
      by (simp add: parseHealthExportChunked_def Let_def)
    with assms show False by simp
  qed
  have x: "endsWith ?low (js ''.xml'')"
  proof (rule ccontr)
    assume "\<not> endsWith ?low (js ''.xml'')"
    with z have "\<exists>e. snd (parseHealthExportChunked H C file) = Inl e"
      by (simp add: parseHealthExportChunked_def Let_def)
    with assms show False by simp
  qed
  obtain evs r where loop: "scanLoop H C file 0 [] ([], [], []) = (evs, r)"
    by (cases "scanLoop H C file 0 [] ([], [], [])")
  show ?thesis
  proof (cases r)
    case (Inl e)
    with z x loop have "snd (parseHealthExportChunked H C file) = Inl e"
      by (simp add: parseHealthExportChunked_def Let_def)
    with assms show ?thesis by simp
  next
    case (Inr acc)
    obtain ws metrics days where acc: "acc = (ws, metrics, days)"
      by (cases acc)
    from z x loop Inr acc assms show ?thesis
      by (simp add: parseHealthExportChunked_def Let_def)
  qed
qed

lemma ordersDates_sorted:
  assumes "ordersDates cmp (map f xs)"
    and "sorted_wrt (\<lambda>a b. cmp (f a) (f b) \<le> 0) xs"
  shows "sorted_wrt (\<lambda>a b. dateLe (f a) (f b)) xs"
proof -
  have "\<And>a b. a \<in> set xs \<Longrightarrow> b \<in> set xs \<Longrightarrow> cmp (f a) (f b) \<le> 0 \<Longrightarrow> dateLe (f a) (f b)"
    using assms(1) by (auto simp: ordersDates_def list_all_iff)
  with assms(2) show ?thesis
    by (auto simp: sorted_wrt_iff_nth_less)
qed

text \<open>
  Claim C3, as amended. When \<open>parseHealthExport\<close> returns, the workouts are in
  non-decreasing order of their start; the body metrics and the activity days are in the
  order in which \<open>localeCompare\<close>, a consistent comparison, puts their date strings. That
  is the non-decreasing order of the dates whenever \<open>localeCompare\<close> orders the date
  strings of the result as the calendar orders the dates that they write, as the
  comparison by code units does for dates written with leading zeros
  (lemma \<open>padded_ordersDates\<close>).
\<close>

theorem results_sorted:
  assumes "consistent (localeCompare H)"
    and "snd (parseHealthExportChunked H C file) = Inr res"
  shows "sorted_wrt (\<lambda>a b. startedAt a \<le> startedAt b) (workouts res)
       \<and> sorted_wrt (\<lambda>a b. localeCompare H (date a) (date b) \<le> 0) (bodyMetrics res)
       \<and> sorted_wrt (\<lambda>a b. localeCompare H (dayDate a) (dayDate b) \<le> 0) (activityDays res)
       \<and> (ordersDates (localeCompare H) (map date (bodyMetrics res))
            \<longrightarrow> sorted_wrt (\<lambda>a b. dateLe (date a) (date b)) (bodyMetrics res))
       \<and> (ordersDates (localeCompare H) (map dayDate (activityDays res))
            \<longrightarrow> sorted_wrt (\<lambda>a b. dateLe (dayDate a) (dayDate b)) (activityDays res))"
proof -
  from parse_result [OF assms(2)] obtain evs ws metrics days d0 d1 where
    "scanLoop H C file 0 [] ([], [], []) = (evs, Inr (ws, metrics, days))"
    "fst (parseHealthExportChunked H C file)
       = Progress \<lparr>phase = Parsing, percent = Val 0, detail = d0\<rparr> # evs
           @ [Progress \<lparr>phase = Done, percent = Val 100, detail = d1\<rparr>]"
    and res: "res = \<lparr>workouts = sortBy (\<lambda>a b. startedAt a - startedAt b) ws,
                 bodyMetrics = sortBy (\<lambda>a b. localeCompare H (date a) (date b)) (map snd metrics),
                 activityDays = sortBy (\<lambda>a b. localeCompare H (dayDate a) (dayDate b)) days\<rparr>"
    by (elim exE conjE)
  have "sorted_wrt (\<lambda>a b. startedAt a - startedAt b \<le> 0)
          (sortBy (\<lambda>a b. startedAt a - startedAt b) ws)"
    by (rule sortBy_sorted [OF consistent_diff])
  then have w: "sorted_wrt (\<lambda>a b. startedAt a \<le> startedAt b) (workouts res)"
    by (simp add: res)
  have m: "sorted_wrt (\<lambda>a b. localeCompare H (date a) (date b) \<le> 0) (bodyMetrics res)"
    unfolding res using sortBy_sorted [OF consistent_key [OF assms(1)]] by simp
  have d: "sorted_wrt (\<lambda>a b. localeCompare H (dayDate a) (dayDate b) \<le> 0) (activityDays res)"
    unfolding res using sortBy_sorted [OF consistent_key [OF assms(1)]] by simp
  from w m d ordersDates_sorted [OF _ m] ordersDates_sorted [OF _ d] show ?thesis
    by blast
qed

lemma progressOf_append: "progressOf (xs @ ys) = progressOf xs @ progressOf ys"
  by (induction xs rule: progressOf.induct) auto

lemma jle_trans: "jle a b \<Longrightarrow> jle b c \<Longrightarrow> jle a c"
  by (cases a; cases b; cases c) auto

text \<open>
  Claim C7. In a run that returns a result, the percents of the progress reports never
  decrease; the last report has the phase \<open>done\<close> and the percent 100, and every report
  before it has the phase \<open>parsing\<close> and a percent of at most 95.
\<close>

theorem progress_monotone:
  assumes "snd (parseHealthExportChunked H C file) = Inr res"
  shows "\<exists>qs d. progressOf (fst (parseHealthExportChunked H C file))
                  = qs @ [\<lparr>phase = Done, percent = Val 100, detail = d\<rparr>]
           \<and> (\<forall>q \<in> set qs. phase q = Parsing \<and> jle (percent q) (Val 95))
           \<and> sorted_wrt jle (map percent (progressOf (fst (parseHealthExportChunked H C file))))"
proof -
  from parse_result [OF assms] obtain evs ws metrics days d0 d1 where
    loop: "scanLoop H C file 0 [] ([], [], []) = (evs, Inr (ws, metrics, days))"
    and evs: "fst (parseHealthExportChunked H C file)
               = Progress \<lparr>phase = Parsing, percent = Val 0, detail = d0\<rparr> # evs
                   @ [Progress \<lparr>phase = Done, percent = Val 100, detail = d1\<rparr>]"
    by blast
  let ?first = "\<lparr>phase = Parsing, percent = Val 0, detail = d0\<rparr>"
  let ?last = "\<lparr>phase = Done, percent = Val 100, detail = d1\<rparr>"
  from scanLoop_percents [OF loop] have
    sorted: "sorted_wrt jle (map percent (progressOf evs))"
    and each: "\<forall>q \<in> set (progressOf evs).
                 phase q = Parsing \<and> jle (percent q) (Val 95) \<and> jle (Val 0) (percent q)"
    by blast+
  have p: "progressOf (fst (parseHealthExportChunked H C file)) = (?first # progressOf evs) @ [?last]"
    by (simp add: evs progressOf_append)
  have "\<forall>q \<in> set (progressOf evs). jle (percent q) (Val 100)"
    using each jle_trans [of _ "Val 95" "Val 100"] by auto
  with sorted each have
    "sorted_wrt jle (map percent ((?first # progressOf evs) @ [?last]))"
    by (simp add: sorted_wrt_append)
  moreover have "\<forall>q \<in> set (?first # progressOf evs). phase q = Parsing \<and> jle (percent q) (Val 95)"
    using each by simp
  ultimately show ?thesis
    unfolding p by blast
qed

text \<open>
  Claim C6, as amended. After each fragment whose extraction completes, the next event is
  a progress report with the phase \<open>parsing\<close> and the percent
  \<open>Math.round((end / file.size) * 95)\<close> as the program computes it: the quotient and the
  product are rounded to binary64, and \<open>Math.round\<close> gives the nearest integer with a tie
  going up. The percent is at most 95.
\<close>

theorem fragments_reported:
  "reportsFollowFragments (fileSize file) (fst (parseHealthExportChunked H C file))"
proof -
  obtain evs r where loop: "scanLoop H C file 0 [] ([], [], []) = (evs, r)"
    by (cases "scanLoop H C file 0 [] ([], [], [])")
  from scanLoop_reports [OF loop] have
    a: "reportsFollowFragments (fileSize file) evs"
    and b: "\<And>acc' d. r = Inr acc' \<Longrightarrow> reportsFollowFragments (fileSize file) (evs @ [Progress d])"
    by blast+
  show ?thesis
    using loop a b
    by (cases r) (auto simp: parseHealthExportChunked_def Let_def split: prod.splits)
qed

section \<open>The example workout records\<close>

lemmas ev = js_def isWhiteSpace_def isDigit_def parseFloat_def parseUnsigned_def parseExponent_def scale10_def
  durationSeconds_def estimateEffort_def substring_def substringFrom_def endsWith_def indexOf_def lastIndexOf_def
  matchAt_def newDateISO_def parseFloatOpt_def strOf_def statRegex_def qtyRegex_def extractMetadataValue_def
  orElse_def cardio_def plain_def formatActivityType_def trim_def distanceField_def effortField_def

lemma docB_matches: "execAll WORKOUT_REGEX (js docB) 0 = [matchB]"
  by (simp add: WORKOUT_REGEX_def docB_def matchB_def js_def isWhiteSpace_def scan_rules del: scan_defs)

lemma docB_context: "workoutContext (js docB) matchB = js docB"
  by (simp add: workoutContext_def docB_def matchB_def ev scan_rules del: scan_defs)

lemma docB_metadata:
  "extractMetadataValue (js docB) (js ''HKQuantityTypeIdentifierDistanceWalkingRunning'') = None"
  "extractMetadataValue (js docB) (js ''HKQuantityTypeIdentifierDistanceCycling'') = None"
  "extractMetadataValue (js docB) (js ''HKQuantityTypeIdentifierActiveEnergyBurned'') = None"
  by (simp_all add: docB_def ev scan_rules del: scan_defs)

lemma matchB_fields:
  "newDateISO exampleHost (matchAt matchB 4) = Inr 1705190400000"
  "newDateISO exampleHost (matchAt matchB 5) = Inr 1705276800000"
  "map_of WORKOUT_TYPE_MAP (strOf (matchAt matchB (Suc 0))) = Some (cardio (js ''Run'') (js ''run''))"
  "parseFloatOpt (matchAt matchB 2) = NaN"
  by (simp_all add: matchB_def matchAt_def newDateISO_def exampleHost_def strOf_def
        WORKOUT_TYPE_MAP_def parseFloatOpt_def parseFloat_def parseUnsigned_def isWhiteSpace_def
        isDigit_def js_def)

lemma js_eq_Nil: "js s = [] \<longleftrightarrow> s = []"
  by (simp add: js_def)

lemma docB_session: "workoutFromMatch exampleHost (js docB) 0 matchB = Inr sessionB"
  by (simp add: workoutFromMatch_def Let_def matchB_fields docB_context docB_metadata
        orElse_def distanceField_def effortField_def durationSeconds_def cardio_def sessionB_def js_eq_Nil)

lemma docB_workouts: "extractWorkoutsFromChunk exampleHost (js docB) [] = Inr [sessionB]"
  by (simp add: extractWorkoutsFromChunk_def docB_matches docB_session)

lemma docB_others:
  "execAll BODY_MASS_REGEX (js docB) 0 = []"
  "execAll BODY_FAT_REGEX (js docB) 0 = []"
  "execAll ACTIVITY_SUMMARY_REGEX (js docB) 0 = []"
  by (simp_all add: BODY_MASS_REGEX_def BODY_FAT_REGEX_def ACTIVITY_SUMMARY_REGEX_def docB_def
        js_def isWhiteSpace_def scan_rules del: scan_defs)

lemma docB_extractAll:
  "extractAll exampleHost (js docB) ([], [], []) = Inr ([sessionB], [], [])"
  by (simp add: extractAll_def docB_workouts extractBodyMetricsFromChunk_def
        extractActivityDaysFromChunk_def docB_others)

section \<open>A file of one chunk\<close>

lemma unat_of_char: "unat (of_char c :: 8 word) = of_char c"
proof -
  have "(of_char c :: 8 word) = of_nat (of_char c)"
    by (simp add: of_nat_of_char)
  then have "unat (of_char c :: 8 word) = (of_char c :: nat) mod 256"
    by (simp add: unat_of_nat)
  then show ?thesis by simp
qed

lemma map_unat_ascii: "map unat (ascii s) = js s"
  by (simp add: ascii_def js_def unat_of_char)

lemma decodeFrom_ascii: "list_all (\<lambda>b. b \<le> 0x7F) bs \<Longrightarrow> decodeFrom Idle bs = map unat bs"
  by (induction bs) (simp_all add: startByte_def)

lemma concat_utf16_bytes: "concat (map utf16 (map unat (bs :: 8 word list))) = map unat bs"
proof (induction bs)
  case Nil
  then show ?case by simp
next
  case (Cons b bs)
  have "unat b < 256" using unsigned_less [of b, where ?'a = nat] by simp
  then have "utf16 (unat b) = [unat b]" by (simp add: utf16_def)
  with Cons show ?case by simp
qed

lemma no_bom_ascii:
  "list_all (\<lambda>b. b \<le> 0x7F) bs \<Longrightarrow> take 3 bs \<noteq> [0xEF, 0xBB, 0xBF :: 8 word]"
  by (cases bs) auto

lemma utf8_decode_ascii:
  assumes "list_all (\<lambda>b. b \<le> 0x7F) bs"
  shows "utf8_decode bs = map unat bs"
  using assms no_bom_ascii [OF assms]
  by (simp add: utf8_decode_def decodeFrom_ascii concat_utf16_bytes del: map_map)

lemma scanLoop_stop: "fileSize file \<le> offset \<Longrightarrow> scanLoop H C file offset rmd acc = ([], Inr acc)"
  by (subst scanLoop.simps) simp

lemma scanLoop_single:
  assumes "0 < fileSize file" "fileSize file \<le> C"
  shows "scanLoop H C file 0 [] acc =
     (case extractAll H (utf8_decode (content file)) acc of
        Inl err \<Rightarrow> ([Fragment (fileSize file) (utf8_decode (content file))], Inl err)
      | Inr acc' \<Rightarrow>
          ([Fragment (fileSize file) (utf8_decode (content file)),
            Progress (parsingReport (fileSize file) (fileSize file) acc')], Inr acc'))"
proof -
  have m: "min C (fileSize file) = fileSize file"
    using assms by simp
  have s: "slice (content file) 0 (fileSize file) = content file"
    by (simp add: slice_def fileSize_def)
  have "0 < C" using assms by simp
  with assms show ?thesis
    by (subst scanLoop.simps) (simp add: m s scanLoop_stop Let_def split: sum.splits)
qed

lemma fileB_size: "fileSize fileB = 139" "list_all (\<lambda>b. b \<le> 0x7F) (content fileB)"
  by (simp_all add: fileSize_def fileB_def ascii_def docB_def)

lemma fileB_text: "utf8_decode (content fileB) = js docB"
  using utf8_decode_ascii [OF fileB_size(2)] by (simp add: fileB_def map_unat_ascii)

lemma fileB_name:
  "\<not> endsWith (toLowerCase (fileName fileB)) (js ''.zip'')"
  "endsWith (toLowerCase (fileName fileB)) (js ''.xml'')"
  by (simp_all add: fileB_def endsWith_def toLowerCase_def js_def)

lemma fileB_loop:
  "scanLoop exampleHost CHUNK_SIZE fileB 0 [] ([], [], []) =
     ([Fragment 139 (js docB), Progress (parsingReport 139 139 ([sessionB], [], []))],
      Inr ([sessionB], [], []))"
  by (subst scanLoop_single)
     (simp_all add: fileB_size fileB_text docB_extractAll CHUNK_SIZE_def)

lemma fileB_result:
  "snd (parseHealthExport exampleHost fileB) =
     Inr \<lparr>workouts = [sessionB], bodyMetrics = [], activityDays = []\<rparr>"
  by (simp add: parseHealthExport_def parseHealthExportChunked_def Let_def fileB_name fileB_loop
        sortBy_def)

section \<open>Sessions of the examples\<close>

text \<open>
  Claim C1 as stated fails: the import of a document whose only record is a workout with
  the duration \<open>abc\<close> returns one workout, with the duration NaN.
\<close>

theorem malformed_duration_counterexample:
  "snd (parseHealthExport exampleHost fileB)
     = Inr \<lparr>workouts = [sessionB], bodyMetrics = [], activityDays = []\<rparr>
   \<and> totalDuration sessionB = NaN"
  by (simp add: fileB_result) (simp add: sessionB_def)

lemma matchB_dates:
  "\<forall>m \<in> set (execAll WORKOUT_REGEX (js docB) 0).
     dateParse exampleHost (strOf (matchAt m 4)) \<noteq> None \<and> matchAt m 4 \<noteq> None
     \<and> dateParse exampleHost (strOf (matchAt m 5)) \<noteq> None \<and> matchAt m 5 \<noteq> None"
  by (simp add: docB_matches)
     (simp add: matchB_def matchAt_def strOf_def exampleHost_def js_def)

text \<open>The amended claim C1 at the document with the duration \<open>abc\<close>.\<close>

theorem malformed_duration_kept_witness:
  "execAll WORKOUT_REGEX (js docB) 0 = [matchB]
   \<and> dateParse exampleHost (strOf (matchAt matchB 4)) = Some 1705190400000
   \<and> dateParse exampleHost (strOf (matchAt matchB 5)) = Some 1705276800000
   \<and> (\<exists>ss. extractWorkoutsFromChunk exampleHost (js docB) [] = Inr ([] @ ss)
          \<and> list_all2
               (\<lambda>m w. parseFloatOpt (matchAt m 2) = NaN \<longrightarrow> totalDuration w = NaN)
               (execAll WORKOUT_REGEX (js docB) 0) ss)
   \<and> parseFloatOpt (matchAt matchB 2) = NaN
   \<and> extractWorkoutsFromChunk exampleHost (js docB) [] = Inr [sessionB]"
proof -
  have "dateParse exampleHost (strOf (matchAt matchB 4)) = Some 1705190400000"
    "dateParse exampleHost (strOf (matchAt matchB 5)) = Some 1705276800000"
    by (simp_all add: matchB_def matchAt_def strOf_def exampleHost_def js_def)
  with malformed_duration_kept [OF matchB_dates, of "[]"] show ?thesis
    by (simp add: matchB_fields docB_workouts docB_matches)
qed





lemma js_eq_iff: "js a = js b \<longleftrightarrow> a = b"
  unfolding js_def by (rule inj_map_eq_map) (rule inj_of_char)






section \<open>Statistics with the value zero\<close>

lemma docZ_matches: "execAll WORKOUT_REGEX (js docZ) 0 = [matchZ]"
  by (simp add: WORKOUT_REGEX_def docZ_def tagZ_def matchZ_def js_def isWhiteSpace_def scan_rules
        del: scan_defs)






section \<open>A file of two chunks\<close>

lemmas regex_defs = WORKOUT_REGEX_def BODY_MASS_REGEX_def BODY_FAT_REGEX_def ACTIVITY_SUMMARY_REGEX_def

lemmas loop_defs = fileSize_def slice_def utf8_decode_def startByte_def utf16_def safeSplit_def
  lastIndexOf_def substring_def substringFrom_def startsWith_def extractAll_def
  extractWorkoutsFromChunk_def extractBodyMetricsFromChunk_def extractActivityDaysFromChunk_def
  ascii_def js_def Let_def

lemma fileM_loop:
  "scanLoop exampleHost 4 fileM 0 [] ([], [], []) =
     ([Fragment 4 (js ''<a/>''), Progress (parsingReport 4 8 ([], [], [])),
       Fragment 8 (js ''<b/>''), Progress (parsingReport 8 8 ([], [], []))],
      Inr ([], [], []))"
  by (simp add: scanLoop.simps fileM_def loop_defs regex_defs scan_rules del: regexExec.simps)
     (simp add: eval_nat_numeral)

lemma fileM_name:
  "\<not> endsWith (toLowerCase (fileName fileM)) (js ''.zip'')"
  "endsWith (toLowerCase (fileName fileM)) (js ''.xml'')"
  by (simp_all add: fileM_def endsWith_def toLowerCase_def js_def)

lemma percent_half: "progressPercent 4 8 = Val 48" "progressPercent 8 8 = Val 95"
  by (simp_all add: progressPercent_def fl_ev floor_eq_iff)

lemma fileM_run:
  "snd (parseHealthExportChunked exampleHost 4 fileM)
     = Inr \<lparr>workouts = [], bodyMetrics = [], activityDays = []\<rparr>"
  "map percent (progressOf (fst (parseHealthExportChunked exampleHost 4 fileM)))
     = [Val 0, Val 48, Val 95, Val 100]"
  "fragmentsOf (fst (parseHealthExportChunked exampleHost 4 fileM)) = [js ''<a/>'', js ''<b/>'']"
  by (simp_all add: parseHealthExportChunked_def Let_def fileM_name fileM_loop sortBy_def
        parsingReport_fields percent_half)

text \<open>Claim C7 at a file of 8 bytes read in chunks of 4.\<close>

theorem progress_monotone_witness:
  "snd (parseHealthExportChunked exampleHost 4 fileM)
     = Inr \<lparr>workouts = [], bodyMetrics = [], activityDays = []\<rparr>
   \<and> (\<exists>qs d. progressOf (fst (parseHealthExportChunked exampleHost 4 fileM))
                  = qs @ [\<lparr>phase = Done, percent = Val 100, detail = d\<rparr>]
           \<and> (\<forall>q \<in> set qs. phase q = Parsing \<and> jle (percent q) (Val 95))
           \<and> sorted_wrt jle
                (map percent (progressOf (fst (parseHealthExportChunked exampleHost 4 fileM)))))
   \<and> map percent (progressOf (fst (parseHealthExportChunked exampleHost 4 fileM)))
       = [Val 0, Val 48, Val 95, Val 100]"
  using progress_monotone [OF fileM_run(1)] fileM_run by simp

section \<open>A sorted result\<close>

lemmas docS_defs = docS_def yogaS_def rowingS_def massS_def daysS_def

lemmas number_defs = parseFloatOpt_def parseFloat_def parseUnsigned_def parseExponent_def
  scale10_def isWhiteSpace_def isDigit_def

lemma docS_workout_matches: "execAll WORKOUT_REGEX (js docS) 0 = [matchYoga, matchRowing]"
  by (simp add: WORKOUT_REGEX_def docS_defs matchYoga_def matchRowing_def js_def isWhiteSpace_def
        scan_rules rxm_Lazy_skip del: scan_defs)

lemma docS_contexts:
  "workoutContext (js docS) matchYoga = js yogaS"
  "workoutContext (js docS) matchRowing = js rowingS"
  by (simp_all add: workoutContext_def docS_defs matchYoga_def matchRowing_def indexOf_def
        matchAt_def strOf_def js_def Let_def scan_rules del: scan_defs)

lemma docS_metadata:
  "extractMetadataValue (js yogaS) (js ''HKQuantityTypeIdentifierDistanceWalkingRunning'') = None"
  "extractMetadataValue (js yogaS) (js ''HKQuantityTypeIdentifierDistanceCycling'') = None"
  "extractMetadataValue (js yogaS) (js ''HKQuantityTypeIdentifierActiveEnergyBurned'') = None"
  "extractMetadataValue (js rowingS) (js ''HKQuantityTypeIdentifierDistanceWalkingRunning'') = None"
  "extractMetadataValue (js rowingS) (js ''HKQuantityTypeIdentifierDistanceCycling'') = None"
  "extractMetadataValue (js rowingS) (js ''HKQuantityTypeIdentifierActiveEnergyBurned'') = None"
  by (simp_all add: yogaS_def rowingS_def extractMetadataValue_def statRegex_def qtyRegex_def
        js_def scan_rules del: scan_defs)

lemma matchS_fields:
  "newDateISO exampleHost (matchAt matchYoga 4) = Inr 1705276800000"
  "newDateISO exampleHost (matchAt matchYoga 5) = Inr 1705276800000"
  "map_of WORKOUT_TYPE_MAP (strOf (matchAt matchYoga (Suc 0)))
     = Some (plain (js ''Yoga'') (js ''cooldown''))"
  "parseFloatOpt (matchAt matchYoga 2) = Val 1"
  "strOf (matchAt matchYoga 3) = js ''hr''"
  "newDateISO exampleHost (matchAt matchRowing 4) = Inr 1705190400000"
  "newDateISO exampleHost (matchAt matchRowing 5) = Inr 1705190400000"
  "map_of WORKOUT_TYPE_MAP (strOf (matchAt matchRowing (Suc 0)))
     = Some (plain (js ''Rowing'') (js ''cardio''))"
  "parseFloatOpt (matchAt matchRowing 2) = Val 20"
  "strOf (matchAt matchRowing 3) = js ''min''"
  by (simp_all add: matchYoga_def matchRowing_def matchAt_def newDateISO_def exampleHost_def
        strOf_def WORKOUT_TYPE_MAP_def number_defs js_def)

lemma docS_sessions:
  "workoutFromMatch exampleHost (js docS) 0 matchYoga = Inr sessionYoga"
  "workoutFromMatch exampleHost (js docS) (Suc 0) matchRowing = Inr sessionRowing"
  by (simp_all add: workoutFromMatch_def Let_def matchS_fields docS_contexts docS_metadata
        orElse_def distanceField_def effortField_def durationSeconds_def plain_def
        sessionYoga_def sessionRowing_def js_eq_Nil js_eq_iff floor_eq_iff)

lemma docS_workouts:
  "extractWorkoutsFromChunk exampleHost (js docS) [] = Inr [sessionYoga, sessionRowing]"
  by (simp add: extractWorkoutsFromChunk_def docS_workout_matches docS_sessions)

lemma docS_mass_matches:
  \<open>execAll BODY_MASS_REGEX (js docS) 0 =
     [(270, [js ''<Record type="HKQuantityTypeIdentifierBodyMass" value="70" unit="kg" startDate="2024-01-15"/>'',
             js ''70'', js ''kg'', js ''2024-01-15'']),
      (363, [js ''<Record type="HKQuantityTypeIdentifierBodyMass" value="154" unit="lb" startDate="2024-01-14"/>'',
             js ''154'', js ''lb'', js ''2024-01-14''])]\<close>
  by (simp add: BODY_MASS_REGEX_def docS_defs js_def isWhiteSpace_def scan_rules rxm_Lazy_skip
        del: scan_defs)

lemma docS_metrics:
  "extractBodyMetricsFromChunk exampleHost (js docS) []
     = Inr [(js ''2024-01-15'', metric15), (js ''2024-01-14'', metric14)]"
proof -
  have fat: "execAll BODY_FAT_REGEX (js docS) 0 = []"
    by (simp add: BODY_FAT_REGEX_def docS_defs js_def isWhiteSpace_def scan_rules rxm_Lazy_skip
          del: scan_defs)
  have mass: "foldMatches (bodyMassFromMatch exampleHost) [] (execAll BODY_MASS_REGEX (js docS) 0)
      = Inr [(js ''2024-01-15'', metric15), (js ''2024-01-14'', metric14)]"
    by (simp add: docS_mass_matches)
       (simp add: bodyMassFromMatch_def Let_def matchAt_def strOf_def newDateISO_def
          exampleHost_def number_defs mapGetOrNew_def metric15_def metric14_def js_def
          floor_eq_iff)
  show ?thesis
    by (simp add: extractBodyMetricsFromChunk_def mass fat)
qed

lemma docS_days: "extractActivityDaysFromChunk (js docS) [] = [day15, day14]"
  by (simp add: extractActivityDaysFromChunk_def ACTIVITY_SUMMARY_REGEX_def docS_defs js_def
        isWhiteSpace_def scan_rules rxm_Lazy_skip del: scan_defs)
     (simp add: activityDayFromMatch_def matchAt_def strOf_def number_defs day15_def day14_def
        js_def floor_eq_iff)

lemma docS_extractAll:
  "extractAll exampleHost (js docS) ([], [], []) =
     Inr ([sessionYoga, sessionRowing],
          [(js ''2024-01-15'', metric15), (js ''2024-01-14'', metric14)],
          [day15, day14])"
  by (simp add: extractAll_def docS_workouts docS_metrics docS_days)

lemma fileS_size: "fileSize fileS = 685" "list_all (\<lambda>b. b \<le> 0x7F) (content fileS)"
  by (simp_all add: fileSize_def fileS_def ascii_def docS_defs)

lemma fileS_text: "utf8_decode (content fileS) = js docS"
  using utf8_decode_ascii [OF fileS_size(2)] by (simp add: fileS_def map_unat_ascii)

lemma fileS_name:
  "\<not> endsWith (toLowerCase (fileName fileS)) (js ''.zip'')"
  "endsWith (toLowerCase (fileName fileS)) (js ''.xml'')"
  by (simp_all add: fileS_def endsWith_def toLowerCase_def js_def)

lemma fileS_loop:
  "snd (scanLoop exampleHost CHUNK_SIZE fileS 0 [] ([], [], [])) =
     Inr ([sessionYoga, sessionRowing],
          [(js ''2024-01-15'', metric15), (js ''2024-01-14'', metric14)],
          [day15, day14])"
  by (subst scanLoop_single)
     (simp_all add: fileS_size fileS_text docS_extractAll CHUNK_SIZE_def)

lemma fileS_result:
  "snd (parseHealthExport exampleHost fileS) =
     Inr \<lparr>workouts = [sessionRowing, sessionYoga], bodyMetrics = [metric14, metric15],
          activityDays = [day14, day15]\<rparr>"
proof -
  obtain evs where loop: "scanLoop exampleHost CHUNK_SIZE fileS 0 [] ([], [], []) =
     (evs, Inr ([sessionYoga, sessionRowing],
          [(js ''2024-01-15'', metric15), (js ''2024-01-14'', metric14)],
          [day15, day14]))"
    using fileS_loop by (cases "scanLoop exampleHost CHUNK_SIZE fileS 0 [] ([], [], [])") simp
  have dates: "compareUnits (js ''2024-01-15'') (js ''2024-01-14'') = 1"
    by (simp add: js_def)
  show ?thesis
    by (simp add: parseHealthExport_def parseHealthExportChunked_def Let_def fileS_name loop
          sortBy_def)
       (simp add: sessionYoga_def sessionRowing_def metric15_def metric14_def day15_def
          day14_def exampleHost_def dates)
qed

lemma compareUnits_total: "compareUnits a b \<le> 0 \<or> compareUnits b a \<le> 0"
  by (induction a b rule: compareUnits.induct) auto

lemma compareUnits_trans:
  "compareUnits a b \<le> 0 \<Longrightarrow> compareUnits b c \<le> 0 \<Longrightarrow> compareUnits a c \<le> 0"
proof (induction a arbitrary: b c)
  case Nil
  then show ?case by (cases c) auto
next
  case (Cons x xs)
  then obtain y ys where b: "b = y # ys" by (cases b) auto
  with Cons.prems obtain z zs where c: "c = z # zs" by (cases c) auto
  from Cons.prems Cons.IH [of ys zs] b c show ?case
    by (auto split: if_splits)
qed

lemma consistent_compareUnits: "consistent compareUnits"
  unfolding consistent_def using compareUnits_total compareUnits_trans by blast

lemma docS_ordersDates:
  "ordersDates (localeCompare exampleHost) (map date [metric14, metric15])"
  "ordersDates (localeCompare exampleHost) (map dayDate [day14, day15])"
  by (simp_all add: ordersDates_def exampleHost_def metric14_def metric15_def day14_def day15_def
        dateLe_def dateFields_def js_def)

text \<open>
  The amended claim C3 at a document with two workouts, two body mass records and two
  activity summaries, each pair with the later date first; the dates are written with
  leading zeros, and the comparison by code units orders them as the calendar does.
\<close>

theorem results_sorted_witness:
  "consistent (localeCompare exampleHost)
   \<and> snd (parseHealthExport exampleHost fileS) =
       Inr \<lparr>workouts = [sessionRowing, sessionYoga], bodyMetrics = [metric14, metric15],
            activityDays = [day14, day15]\<rparr>
   \<and> ordersDates (localeCompare exampleHost) (map date [metric14, metric15])
   \<and> ordersDates (localeCompare exampleHost) (map dayDate [day14, day15])
   \<and> sorted_wrt (\<lambda>a b. startedAt a \<le> startedAt b) [sessionRowing, sessionYoga]
   \<and> sorted_wrt (\<lambda>a b. localeCompare exampleHost (date a) (date b) \<le> 0) [metric14, metric15]
   \<and> sorted_wrt (\<lambda>a b. localeCompare exampleHost (dayDate a) (dayDate b) \<le> 0) [day14, day15]
   \<and> sorted_wrt (\<lambda>a b. dateLe (date a) (date b)) [metric14, metric15]
   \<and> sorted_wrt (\<lambda>a b. dateLe (dayDate a) (dayDate b)) [day14, day15]
   \<and> map startedAt [sessionRowing, sessionYoga] = [1705190400000, 1705276800000]
   \<and> map date [metric14, metric15] = [js ''2024-01-14'', js ''2024-01-15'']
   \<and> map dayDate [day14, day15] = [js ''2024-01-14'', js ''2024-01-15'']"
proof -
  have c: "consistent (localeCompare exampleHost)"
    by (simp add: exampleHost_def consistent_compareUnits)
  have r: "snd (parseHealthExportChunked exampleHost CHUNK_SIZE fileS) =
       Inr \<lparr>workouts = [sessionRowing, sessionYoga], bodyMetrics = [metric14, metric15],
            activityDays = [day14, day15]\<rparr>"
    using fileS_result by (simp add: parseHealthExport_def)
  have s: "map startedAt [sessionRowing, sessionYoga] = [1705190400000, 1705276800000]"
    "map date [metric14, metric15] = [js ''2024-01-14'', js ''2024-01-15'']"
    "map dayDate [day14, day15] = [js ''2024-01-14'', js ''2024-01-15'']"
    by (simp_all add: sessionRowing_def sessionYoga_def metric14_def metric15_def day14_def
          day15_def)
  from results_sorted [OF c r] docS_ordersDates
  have "sorted_wrt (\<lambda>a b. startedAt a \<le> startedAt b) [sessionRowing, sessionYoga]
   \<and> sorted_wrt (\<lambda>a b. localeCompare exampleHost (date a) (date b) \<le> 0) [metric14, metric15]
   \<and> sorted_wrt (\<lambda>a b. localeCompare exampleHost (dayDate a) (dayDate b) \<le> 0) [day14, day15]
   \<and> sorted_wrt (\<lambda>a b. dateLe (date a) (date b)) [metric14, metric15]
   \<and> sorted_wrt (\<lambda>a b. dateLe (dayDate a) (dayDate b)) [day14, day15]"
    by simp
  with c fileS_result docS_ordersDates s show ?thesis
    by blast
qed

section \<open>A character across two chunks\<close>

lemma fileU_loop:
  "scanLoop exampleHost 5 fileU 0 [] ([], [], []) =
     ([Fragment 5 (js ''<a/>''), Progress (parsingReport 5 10 ([], [], [])),
       Fragment 10 ([65533, 65533] @ js ''<b/>''), Progress (parsingReport 10 10 ([], [], []))],
      Inr ([], [], []))"
  by (simp add: scanLoop.simps fileU_def loop_defs regex_defs scan_rules del: regexExec.simps)
     (simp add: eval_nat_numeral)

lemma fileU_name:
  "\<not> endsWith (toLowerCase (fileName fileU)) (js ''.zip'')"
  "endsWith (toLowerCase (fileName fileU)) (js ''.xml'')"
  by (simp_all add: fileU_def endsWith_def toLowerCase_def js_def)

lemma fileU_fragments:
  "fragmentsOf (fst (parseHealthExportChunked exampleHost 5 fileU))
     = [js ''<a/>'', [65533, 65533] @ js ''<b/>'']"
  by (simp add: parseHealthExportChunked_def Let_def fileU_name fileU_loop)

lemma fileU_text: "utf8_decode (content fileU) = js ''<a/>'' @ [233] @ js ''<b/>''"
  by (simp add: fileU_def utf8_decode_def startByte_def utf16_def ascii_def js_def)

lemma decodeFrom_spaces:
  "decodeFrom Idle (replicate k 0x20 @ bs) = replicate k 32 @ decodeFrom Idle bs"
  by (induction k) (simp_all add: startByte_def)

lemma concat_utf16_spaces:
  "concat (map utf16 (replicate k 32 @ xs)) = replicate k 32 @ concat (map utf16 xs)"
  by (induction k) (simp_all add: utf16_def)

lemma concat_replicate_single: "concat (replicate k [x]) = replicate k x"
  by (induction k) simp_all

lemma utf8_decode_spaces:
  assumes "0 < k"
  shows "utf8_decode (replicate k 0x20 @ bs) = replicate k 32 @ concat (map utf16 (decodeFrom Idle bs))"
proof -
  obtain j where k: "k = Suc j" using assms by (cases k) auto
  have "take 3 (replicate k 0x20 @ bs) \<noteq> [0xEF, 0xBB, 0xBF :: 8 word]"
    by (simp add: k)
  then show ?thesis
    by (simp add: utf8_decode_def decodeFrom_spaces utf16_def concat_replicate_single)
qed

lemma findLast_absent: "a \<notin> set s \<Longrightarrow> findLast (a # ps) s i = - 1"
  by (induction s arbitrary: i) (simp_all add: startsWith_def Let_def)

lemma safeSplit_absent: "47 \<notin> set tx \<Longrightarrow> 60 \<notin> set tx \<Longrightarrow> safeSplit tx = None"
  by (simp add: safeSplit_def lastIndexOf_def js_def findLast_absent Let_def)

lemma execAll_absent: "a \<notin> set s \<Longrightarrow> execAll (Lit (a # ps) # r) s i = []"
  by (induction s arbitrary: i) (simp_all add: execAll_Nil execAll_skip)

lemma extractAll_absent: "60 \<notin> set tx \<Longrightarrow> extractAll H tx acc = Inr acc"
  by (cases acc)
     (simp add: extractAll_def extractWorkoutsFromChunk_def extractBodyMetricsFromChunk_def
        extractActivityDaysFromChunk_def regex_defs js_def execAll_absent)

lemma split_character_loop:
  assumes "1 < C"
    and "content file = replicate (C - 1) 0x20 @ [0xC3, 0xA9]"
  shows "fragmentsOf (fst (scanLoop H C file 0 [] acc)) = [replicate (C - 1) 32 @ [65533, 65533]]"
    and "snd (scanLoop H C file 0 [] acc) = Inr acc"
proof -
  define t1 where "t1 = replicate (C - 1) 32 @ [65533 :: nat]"
  define t2 where "t2 = replicate (C - 1) 32 @ [65533, 65533 :: nat]"
  define b1 where "b1 = replicate (C - 1) (0x20 :: 8 word) @ [0xC3]"
  have n: "fileSize file = Suc C"
    using assms by (simp add: fileSize_def)
  have c1: "slice (content file) 0 C = b1"
    using assms by (simp add: slice_def b1_def)
  have c2: "slice (content file) C (Suc C) = [0xA9]"
    using assms by (simp add: slice_def)
  have d1: "utf8_decode b1 = t1"
    using assms(1) unfolding b1_def t1_def by (simp add: utf8_decode_spaces startByte_def utf16_def)
  have d2: "utf8_decode [0xA9] = [65533]"
    by (simp add: utf8_decode_def startByte_def utf16_def)
  have s1: "safeSplit t1 = None"
    unfolding t1_def by (rule safeSplit_absent) auto
  have t12: "t1 @ [65533] = t2"
    by (simp add: t1_def t2_def)
  have x2: "extractAll H t2 acc = Inr acc"
    unfolding t2_def by (rule extractAll_absent) auto
  have stop: "scanLoop H C file (C + C) [] acc = ([], Inr acc)"
    using assms(1) n by (simp add: scanLoop_stop)
  have step2: "scanLoop H C file C t1 acc =
      ([Fragment (Suc C) t2, Progress (parsingReport (Suc C) (Suc C) acc)], Inr acc)"
    using assms(1)
    by (subst scanLoop.simps) (simp add: n c2 d2 t12 x2 stop Let_def min_def)
  have step1: "scanLoop H C file 0 [] acc = scanLoop H C file C t1 acc"
    using assms(1)
    by (subst scanLoop.simps) (simp add: n c1 d1 s1 Let_def min_def)
  show "fragmentsOf (fst (scanLoop H C file 0 [] acc)) = [replicate (C - 1) 32 @ [65533, 65533]]"
    by (simp add: step1 step2) (simp add: t2_def)
  show "snd (scanLoop H C file 0 [] acc) = Inr acc"
    by (simp add: step1 step2)
qed

lemma fragmentsOf_append: "fragmentsOf (xs @ ys) = fragmentsOf xs @ fragmentsOf ys"
  by (induction xs rule: fragmentsOf.induct) auto

lemma fileBig_name:
  "\<not> endsWith (toLowerCase (fileName fileBig)) (js ''.zip'')"
  "endsWith (toLowerCase (fileName fileBig)) (js ''.xml'')"
  by (simp_all add: fileBig_def endsWith_def toLowerCase_def js_def)

lemma fileBig_fragments:
  "fragmentsOf (fst (parseHealthExport exampleHost fileBig))
     = [replicate (CHUNK_SIZE - 1) 32 @ [65533, 65533]]"
proof -
  have C: "1 < CHUNK_SIZE" by (simp add: CHUNK_SIZE_def)
  have content: "content fileBig = replicate (CHUNK_SIZE - 1) 0x20 @ [0xC3, 0xA9]"
    by (simp add: fileBig_def)
  note loop = split_character_loop [OF C content, of exampleHost "([], [], [])"]
  obtain evs where evs: "scanLoop exampleHost CHUNK_SIZE fileBig 0 [] ([], [], []) = (evs, Inr ([], [], []))"
    using loop(2) by (cases "scanLoop exampleHost CHUNK_SIZE fileBig 0 [] ([], [], [])") simp
  with loop(1) have f: "fragmentsOf evs = [replicate (CHUNK_SIZE - 1) 32 @ [65533, 65533]]"
    by simp
  show ?thesis
    by (simp add: parseHealthExport_def parseHealthExportChunked_def Let_def fileBig_name evs
          fragmentsOf_append f)
qed

lemma fileBig_text: "utf8_decode (content fileBig) = replicate (CHUNK_SIZE - 1) 32 @ [233]"
proof -
  have "0 < CHUNK_SIZE - 1" by (simp add: CHUNK_SIZE_def)
  from utf8_decode_spaces [OF this] show ?thesis
    by (simp add: fileBig_def startByte_def utf16_def)
qed

text \<open>
  Claim C2 fails on the code. A file of \<open>CHUNK_SIZE - 1\<close> spaces followed by the two bytes
  of the character U+00E9 is read in two chunks that each hold one byte of the character;
  each chunk is decoded on its own, so the only fragment ends in two replacement
  characters where the document has U+00E9. The same happens with chunks of 5 bytes on
  a document of 10 bytes.
\<close>

theorem chunk_boundary_splits_character:
  "fragmentsOf (fst (parseHealthExport exampleHost fileBig))
     = [replicate (CHUNK_SIZE - 1) 32 @ [65533, 65533]]
   \<and> utf8_decode (content fileBig) = replicate (CHUNK_SIZE - 1) 32 @ [233]
   \<and> concat (fragmentsOf (fst (parseHealthExport exampleHost fileBig)))
       \<noteq> utf8_decode (content fileBig)
   \<and> fragmentsOf (fst (parseHealthExportChunked exampleHost 5 fileU))
       = [js ''<a/>'', [65533, 65533] @ js ''<b/>'']
   \<and> utf8_decode (content fileU) = js ''<a/>'' @ [233] @ js ''<b/>''"
  by (simp add: fileBig_fragments fileBig_text fileU_fragments fileU_text)

section \<open>Body fat records\<close>

lemma rxm_groups: "rxm r s = Some (gs, rest) \<Longrightarrow> length gs = captures r"
proof (induction r s arbitrary: gs rest rule: rxm.induct)
  case (1 s)
  then show ?case by simp
next
  case (2 l r s)
  from "2.prems" obtain t where "stripPrefix l s = Some t" "rxm r t = Some (gs, rest)"
    by (subst (asm) rxm.simps) (auto split: option.splits simp del: rxm.simps)
  with "2.IH" show ?case by (simp del: rxm.simps)
next
  case (3 r s)
  from "3.prems" obtain x t where "s = x # t" "isWhiteSpace x" "rxm r t = Some (gs, rest)"
    by (subst (asm) rxm.simps) (auto split: list.splits if_splits simp del: rxm.simps)
  with "3.IH" show ?case by (simp del: rxm.simps)
next
  case (4 c r s)
  show ?case
  proof (cases "rxm r s")
    case (Some m)
    with "4.prems" have "rxm r s = Some (gs, rest)"
      by (subst (asm) rxm.simps) (simp del: rxm.simps)
    with "4.IH"(1) show ?thesis by (simp del: rxm.simps)
  next
    case None
    with "4.prems" obtain x t where "s = x # t" "x \<noteq> c" "rxm (LazyNot c # r) t = Some (gs, rest)"
      by (subst (asm) rxm.simps) (auto split: list.splits if_splits simp del: rxm.simps)
    with None "4.IH"(2) show ?thesis by (simp del: rxm.simps)
  qed
next
  case (5 c r s)
  show ?case
  proof (cases s)
    case Nil
    with "5.prems" obtain gs' where "rxm r s = Some (gs', rest)" "gs = [] # gs'"
      by (subst (asm) rxm.simps) (auto split: option.splits simp del: rxm.simps)
    moreover have "(case s of [] \<Rightarrow> None
            | x # t \<Rightarrow>
                if x \<noteq> c then
                  (case rxm (CapNot c # r) t of
                     Some (g # gs, rest) \<Rightarrow> Some ((x # g) # gs, rest)
                   | _ \<Rightarrow> None)
                else None) = None"
      using Nil by simp
    ultimately show ?thesis using "5.IH"(2) by (simp del: rxm.simps)
  next
    case (Cons x t)
    define inner where "inner =
      (if x \<noteq> c then
         (case rxm (CapNot c # r) t of
            Some (g # gs, rest) \<Rightarrow> Some ((x # g) # gs, rest)
          | _ \<Rightarrow> None)
       else None)"
    have unfold: "rxm (CapNot c # r) s =
      (case inner of
         Some m \<Rightarrow> Some m
       | None \<Rightarrow> (case rxm r s of Some (gs, rest) \<Rightarrow> Some ([] # gs, rest) | None \<Rightarrow> None))"
      by (subst rxm.simps) (simp add: Cons inner_def del: rxm.simps)
    have inner_s: "(case s of [] \<Rightarrow> None
            | x # t \<Rightarrow>
                if x \<noteq> c then
                  (case rxm (CapNot c # r) t of
                     Some (g # gs, rest) \<Rightarrow> Some ((x # g) # gs, rest)
                   | _ \<Rightarrow> None)
                else None) = inner"
      by (simp add: Cons inner_def del: rxm.simps)
    show ?thesis
    proof (cases inner)
      case None
      with "5.prems" unfold obtain gs' where "rxm r s = Some (gs', rest)" "gs = [] # gs'"
        by (auto split: option.splits simp del: rxm.simps)
      with None inner_s "5.IH"(2) show ?thesis by (simp del: rxm.simps)
    next
      case (Some m)
      with "5.prems" unfold have m: "inner = Some (gs, rest)" by (simp del: rxm.simps)
      then have xc: "x \<noteq> c"
        by (auto simp: inner_def split: if_splits simp del: rxm.simps)
      with m obtain q where q: "rxm (CapNot c # r) t = Some q"
        by (cases "rxm (CapNot c # r) t") (auto simp: inner_def simp del: rxm.simps)
      obtain gl rest' where qq: "q = (gl, rest')" by (cases q)
      from m xc q qq obtain g gs' where gl: "gl = g # gs'"
        by (cases gl) (auto simp: inner_def simp del: rxm.simps)
      from m xc q qq gl have eq: "gs = (x # g) # gs'" "rest = rest'"
        by (auto simp: inner_def simp del: rxm.simps)
      from q qq gl eq have "rxm (CapNot c # r) t = Some (g # gs', rest)" by (simp del: rxm.simps)
      from "5.IH"(1) [OF Cons xc this] eq show ?thesis by (simp del: rxm.simps)
    qed
  qed
next
  case (6 c r s)
  define inner where "inner = (case s of [] \<Rightarrow> None | x # t \<Rightarrow> if x = c then rxm r t else None)"
  have unfold: "rxm (Opt c # r) s = (case inner of Some m \<Rightarrow> Some m | None \<Rightarrow> rxm r s)"
    by (subst rxm.simps) (simp add: inner_def del: rxm.simps)
  show ?case
  proof (cases inner)
    case None
    with "6.prems" unfold have "rxm r s = Some (gs, rest)" by (simp del: rxm.simps)
    with None "6.IH"(2) show ?thesis by (simp add: inner_def del: rxm.simps)
  next
    case (Some m)
    with "6.prems" unfold have m: "inner = Some (gs, rest)" by (simp del: rxm.simps)
    then obtain x t where s: "s = x # t" by (cases s) (auto simp: inner_def simp del: rxm.simps)
    with m have xc: "x = c" and r: "rxm r t = Some (gs, rest)"
      by (auto simp: inner_def split: if_splits simp del: rxm.simps)
    from "6.IH"(1) [OF s xc r] show ?thesis by (simp del: rxm.simps)
  qed
qed

lemma execAll_groups: "m \<in> set (execAll rx s i) \<Longrightarrow> length (snd m) = Suc (captures rx)"
proof (induction rx s i rule: execAll.induct)
  case (1 rx s i)
  show ?case
  proof (cases "rxm rx s")
    case None
    with "1.prems" obtain c t where s: "s = c # t" and m: "m \<in> set (execAll rx t (Suc i))"
      by (subst (asm) execAll.simps) (auto split: list.splits)
    from "1.IH"(1) [OF None s m] show ?thesis .
  next
    case (Some p)
    obtain gs rest where p: "p = (gs, rest)" by (cases p)
    show ?thesis
    proof (cases "length rest < length s")
      case True
      with "1.prems" Some p have
        "m = (i, take (length s - length rest) s # gs)
         \<or> m \<in> set (execAll rx rest (i + (length s - length rest)))"
        by (subst (asm) execAll.simps) auto
      then show ?thesis
      proof
        assume "m = (i, take (length s - length rest) s # gs)"
        with rxm_groups Some p show ?thesis by auto
      next
        assume "m \<in> set (execAll rx rest (i + (length s - length rest)))"
        with "1.IH"(2) [OF Some p [symmetric] True] show ?thesis by simp
      qed
    next
      case False
      with "1.prems" Some p show ?thesis
        by (subst (asm) execAll.simps) auto
    qed
  qed
qed

lemma body_fat_match_short:
  assumes "m \<in> set (execAll BODY_FAT_REGEX chunk 0)"
  shows "matchAt m 3 = None"
  using execAll_groups [OF assms] by (simp add: matchAt_def BODY_FAT_REGEX_def)

lemma bodyFatFromMatch_undefined:
  "matchAt m 3 = None \<Longrightarrow> bodyFatFromMatch H metrics m = Inl RangeError"
  by (simp add: bodyFatFromMatch_def newDateISO_def Let_def)

lemma foldMatches_first_error:
  assumes "ms \<noteq> []" "\<And>acc m. m \<in> set ms \<Longrightarrow> body acc m = Inl e"
  shows "foldMatches body acc ms = Inl e"
  using assms by (cases ms) auto

lemma bodyMassFromMatch_error: "bodyMassFromMatch H metrics m = Inl e \<Longrightarrow> e = RangeError"
  by (auto simp: bodyMassFromMatch_def newDateISO_def Let_def split: option.splits sum.splits)

lemma foldMatches_body_mass_error:
  "foldMatches (bodyMassFromMatch H) metrics ms = Inl e \<Longrightarrow> e = RangeError"
  by (induction ms arbitrary: metrics) (auto split: sum.splits dest: bodyMassFromMatch_error)

lemma extractBodyMetrics_fat:
  assumes "execAll BODY_FAT_REGEX chunk 0 \<noteq> []"
  shows "extractBodyMetricsFromChunk H chunk metrics = Inl RangeError"
proof (cases "foldMatches (bodyMassFromMatch H) metrics (execAll BODY_MASS_REGEX chunk 0)")
  case (Inl e)
  with foldMatches_body_mass_error [OF Inl] show ?thesis
    by (simp add: extractBodyMetricsFromChunk_def)
next
  case (Inr metrics')
  have "foldMatches (bodyFatFromMatch H) metrics' (execAll BODY_FAT_REGEX chunk 0) = Inl RangeError"
    using assms
    by (rule foldMatches_first_error)
       (simp add: bodyFatFromMatch_undefined body_fat_match_short)
  with Inr show ?thesis
    by (simp add: extractBodyMetricsFromChunk_def)
qed

lemma extractWorkouts_error: "extractWorkoutsFromChunk H chunk ws = Inl e \<Longrightarrow> e = RangeError"
  by (simp add: extractWorkoutsFromChunk_def pushWorkouts_error)

lemma extractAll_fat:
  assumes "execAll BODY_FAT_REGEX chunk 0 \<noteq> []"
  shows "extractAll H chunk acc = Inl RangeError"
proof -
  obtain ws metrics days where acc: "acc = (ws, metrics, days)"
    by (cases acc)
  show ?thesis
  proof (cases "extractWorkoutsFromChunk H chunk ws")
    case (Inl e)
    with extractWorkouts_error [OF Inl] acc show ?thesis
      by (simp add: extractAll_def)
  next
    case (Inr ws')
    with extractBodyMetrics_fat [OF assms] acc show ?thesis
      by (simp add: extractAll_def)
  qed
qed

lemma docF_fat: "execAll BODY_FAT_REGEX (js docF) 0 = [matchF]"
  by (simp add: BODY_FAT_REGEX_def docF_def massA_def massB_def fatC_def matchF_def js_def
        isWhiteSpace_def scan_rules rxm_Lazy_skip del: scan_defs)

lemma docF_mass:
  "execAll BODY_MASS_REGEX (js docF) 0 =
     [(0, [js massA, js ''70'', js ''kg'', js ''2024-01-15'']),
      (93, [js massB, js ''71'', js ''kg'', js ''2024-01-15''])]"
  by (simp add: BODY_MASS_REGEX_def docF_def massA_def massB_def fatC_def js_def
        isWhiteSpace_def scan_rules rxm_Lazy_skip del: scan_defs)

lemma docF_mass_merged:
  "foldMatches (bodyMassFromMatch exampleHost) [] (execAll BODY_MASS_REGEX (js docF) 0) =
     Inr [(js ''2024-01-15'',
           \<lparr>date = js ''2024-01-15'', source = js ''apple_health'',
              weight = Some (Val (313 / 2)), bodyFat = None\<rparr>)]"
  by (simp add: docF_mass)
     (simp add: bodyMassFromMatch_def Let_def matchAt_def strOf_def newDateISO_def exampleHost_def
        parseFloatOpt_def parseFloat_def parseUnsigned_def parseExponent_def scale10_def
        isWhiteSpace_def isDigit_def mapGetOrNew_def js_def floor_eq_iff)

lemma fileF_size: "fileSize fileF = 279" "list_all (\<lambda>b. b \<le> 0x7F) (content fileF)"
  by (simp_all add: fileSize_def fileF_def ascii_def docF_def massA_def massB_def fatC_def)

lemma fileF_text: "utf8_decode (content fileF) = js docF"
  using utf8_decode_ascii [OF fileF_size(2)] by (simp add: fileF_def map_unat_ascii)

lemma fileF_name:
  "\<not> endsWith (toLowerCase (fileName fileF)) (js ''.zip'')"
  "endsWith (toLowerCase (fileName fileF)) (js ''.xml'')"
  by (simp_all add: fileF_def endsWith_def toLowerCase_def js_def)

lemma fileF_loop:
  "snd (scanLoop exampleHost CHUNK_SIZE fileF 0 [] ([], [], [])) = Inl RangeError"
proof -
  have "extractAll exampleHost (js docF) ([], [], []) = Inl RangeError"
    by (rule extractAll_fat) (simp add: docF_fat)
  then show ?thesis
    by (subst scanLoop_single) (simp_all add: fileF_size fileF_text CHUNK_SIZE_def)
qed

text \<open>
  Claim C4 fails on the code. In a document with two body mass records and one body fat
  record of the same date, the two body mass records collapse into one entry with the
  later weight, but the body fat loop reads the element 3 of a match array that has the
  elements 0 to 2, so that its date is \<open>undefined\<close>, \<open>toISOString()\<close> raises a RangeError
  and the import returns no result.
\<close>

theorem body_fat_aborts_import:
  "execAll BODY_FAT_REGEX (js docF) 0 = [matchF]
   \<and> matchAt matchF 3 = None
   \<and> foldMatches (bodyMassFromMatch exampleHost) [] (execAll BODY_MASS_REGEX (js docF) 0) =
       Inr [(js ''2024-01-15'',
             \<lparr>date = js ''2024-01-15'', source = js ''apple_health'',
                weight = Some (Val (313 / 2)), bodyFat = None\<rparr>)]
   \<and> extractBodyMetricsFromChunk exampleHost (js docF) [] = Inl RangeError
   \<and> snd (parseHealthExport exampleHost fileF) = Inl RangeError"
proof -
  have a: "matchAt matchF 3 = None"
    by (simp add: matchAt_def matchF_def)
  have b: "extractBodyMetricsFromChunk exampleHost (js docF) [] = Inl RangeError"
    by (rule extractBodyMetrics_fat) (simp add: docF_fat)
  obtain evs where loop: "scanLoop exampleHost CHUNK_SIZE fileF 0 [] ([], [], []) = (evs, Inl RangeError)"
    using fileF_loop by (cases "scanLoop exampleHost CHUNK_SIZE fileF 0 [] ([], [], [])") simp
  have c: "snd (parseHealthExport exampleHost fileF) = Inl RangeError"
    by (simp add: parseHealthExport_def parseHealthExportChunked_def Let_def fileF_name loop)
  from a b c docF_fat docF_mass_merged show ?thesis
    by simp
qed

section \<open>Dates written without leading zeros\<close>

lemma digits_acc:
  "foldl (\<lambda>acc c. 10 * acc + (c - 48)) a xs
     = a * 10 ^ length xs + foldl (\<lambda>acc c. 10 * acc + (c - 48)) (0::nat) xs"
proof (induction xs arbitrary: a)
  case Nil
  then show ?case by simp
next
  case (Cons x xs)
  from Cons [of "10 * a + (x - 48)"] Cons [of "x - 48"] show ?case
    by (simp add: algebra_simps)
qed

lemma digitsValue_Cons: "digitsValue (x # xs) = (x - 48) * 10 ^ length xs + digitsValue xs"
  using digits_acc [of "x - 48" xs] by simp

lemma digitsValue_bound: "list_all isDigit xs \<Longrightarrow> digitsValue xs < 10 ^ length xs"
proof (induction xs)
  case Nil
  then show ?case by simp
next
  case (Cons x xs)
  have a9: "x - 48 \<le> 9"
    using Cons.prems by (auto simp: isDigit_def)
  have b: "digitsValue xs < 10 ^ length xs"
    using Cons by (simp del: digitsValue.simps)
  have p: "(x - 48) * 10 ^ length xs \<le> 9 * 10 ^ length xs"
    using a9 by (intro mult_le_mono1)
  have "(x - 48) * 10 ^ length xs + digitsValue xs < 10 * 10 ^ length xs"
    using p b by linarith
  then show ?case
    unfolding digitsValue_Cons by (simp del: digitsValue.simps)
qed

lemma leading_digit_less:
  assumes "a < b" "r < (10::nat) ^ n"
  shows "a * 10 ^ n + r < b * 10 ^ n + s"
proof -
  have "a * 10 ^ n + r < (a + 1) * 10 ^ n"
    using assms(2) by (simp add: algebra_simps)
  also have "\<dots> \<le> b * 10 ^ n"
    using assms(1) by (intro mult_le_mono1) simp
  finally show ?thesis by simp
qed

text \<open>
  On strings of digits of the same length the comparison by code units is the
  comparison of the numbers that they write.
\<close>

lemma compareUnits_digits:
  assumes "length xs = length ys" "list_all isDigit xs" "list_all isDigit ys"
  shows "(compareUnits xs ys < 0) = (digitsValue xs < digitsValue ys)
       \<and> (compareUnits xs ys = 0) = (digitsValue xs = digitsValue ys)"
  using assms
proof (induction xs ys rule: list_induct2)
  case Nil
  then show ?case by simp
next
  case (Cons x xs y ys)
  have dx: "48 \<le> x" and dy: "48 \<le> y"
    using Cons.prems by (simp_all add: isDigit_def)
  have bx: "digitsValue xs < 10 ^ length xs" and by': "digitsValue ys < 10 ^ length xs"
    using Cons.prems Cons.hyps digitsValue_bound [of xs] digitsValue_bound [of ys]
    by (simp_all del: digitsValue.simps)
  have ih: "(compareUnits xs ys < 0) = (digitsValue xs < digitsValue ys)
       \<and> (compareUnits xs ys = 0) = (digitsValue xs = digitsValue ys)"
    using Cons by (simp del: digitsValue.simps)
  consider "x < y" | "y < x" | "x = y" by linarith
  then show ?case
  proof cases
    case 1
    then have "x - 48 < y - 48" using dx by simp
    from leading_digit_less [OF this bx, of "digitsValue ys"] 1 Cons.hyps show ?thesis
      by (simp add: digitsValue_Cons del: digitsValue.simps)
  next
    case 2
    then have "y - 48 < x - 48" using dy by simp
    from leading_digit_less [OF this by', of "digitsValue xs"] 2 Cons.hyps show ?thesis
      by (simp add: digitsValue_Cons del: digitsValue.simps)
  next
    case 3
    with ih Cons.hyps show ?thesis
      by (simp add: digitsValue_Cons del: digitsValue.simps)
  qed
qed

lemma compareUnits_append:
  "length xs = length ys \<Longrightarrow>
     compareUnits (xs @ r) (ys @ r') =
       (if compareUnits xs ys = 0 then compareUnits r r' else compareUnits xs ys)"
  by (induction xs ys rule: list_induct2) auto

lemma splitOn_last: "c \<notin> set xs \<Longrightarrow> splitOn c xs = [xs]"
  by (induction xs) auto

lemma splitOn_field: "c \<notin> set xs \<Longrightarrow> splitOn c (xs @ c # rest) = xs # splitOn c rest"
  by (induction xs) auto

lemma digits_no_hyphen: "list_all isDigit xs \<Longrightarrow> 45 \<notin> set xs"
  by (auto simp: list_all_iff isDigit_def)

lemma dateFields_padded:
  assumes "list_all isDigit y" "list_all isDigit m" "list_all isDigit d"
  shows "dateFields (y @ 45 # m @ 45 # d) = [digitsValue y, digitsValue m, digitsValue d]"
  using assms
  by (simp add: dateFields_def splitOn_field splitOn_last digits_no_hyphen del: digitsValue.simps)

text \<open>
  Dates whose years, months and days are written with the same numbers of digits, as
  they are with leading zeros, are ordered by the comparison by code units as by the
  calendar.
\<close>

lemma compareUnits_padded_dates:
  assumes "list_all isDigit y" "list_all isDigit m" "list_all isDigit d"
    and "list_all isDigit y'" "list_all isDigit m'" "list_all isDigit d'"
    and "length y = length y'" "length m = length m'" "length d = length d'"
  shows "(compareUnits (y @ 45 # m @ 45 # d) (y' @ 45 # m' @ 45 # d') \<le> 0)
           = dateLe (y @ 45 # m @ 45 # d) (y' @ 45 # m' @ 45 # d')"
proof -
  note cy = compareUnits_digits [OF assms(7) assms(1) assms(4)]
  note cm = compareUnits_digits [OF assms(8) assms(2) assms(5)]
  note cd = compareUnits_digits [OF assms(9) assms(3) assms(6)]
  have c: "compareUnits (y @ 45 # m @ 45 # d) (y' @ 45 # m' @ 45 # d') =
      (if compareUnits y y' = 0
       then (if compareUnits m m' = 0 then compareUnits d d' else compareUnits m m')
       else compareUnits y y')"
    using compareUnits_append [OF assms(7), of "45 # m @ 45 # d" "45 # m' @ 45 # d'"]
      compareUnits_append [OF assms(8), of "45 # d" "45 # d'"]
    by simp
  have le: "\<And>k :: int. (k \<le> 0) = (k < 0 \<or> k = 0)" by auto
  show ?thesis
    unfolding c dateLe_def dateFields_padded [OF assms(1-3)] dateFields_padded [OF assms(4-6)]
    using cy cm cd
    by (simp add: le del: digitsValue.simps)
qed

lemma paddedDate_parts:
  assumes "paddedDate s"
  shows "s = take 4 s @ 45 # take 2 (drop 5 s) @ 45 # drop 8 s"
proof -
  have l: "length s = 10" and h: "s ! 4 = 45" "s ! 7 = 45"
    using assms by (simp_all add: paddedDate_def)
  have "s = take 4 s @ s ! 4 # drop 5 s"
    using id_take_nth_drop [of 4 s] l by simp
  moreover have "drop 5 s = take 2 (drop 5 s) @ drop 5 s ! 2 # drop 3 (drop 5 s)"
    using id_take_nth_drop [of 2 "drop 5 s"] l by simp
  moreover have "drop 5 s ! 2 = s ! 7" "drop 3 (drop 5 s) = drop 8 s"
    using l by simp_all
  ultimately show ?thesis
    using h by metis
qed

text \<open>
  The comparison by code units puts dates written with leading zeros in the order of the
  calendar.
\<close>

lemma padded_ordersDates:
  assumes "list_all paddedDate ds"
  shows "ordersDates compareUnits ds"
proof -
  have "(compareUnits a b \<le> 0) = dateLe a b" if "paddedDate a" "paddedDate b" for a b
  proof -
    note pa = paddedDate_parts [OF that(1)] and pb = paddedDate_parts [OF that(2)]
    have la: "length a = 10" and lb: "length b = 10"
      using that by (simp_all add: paddedDate_def)
    have da: "list_all isDigit (take 4 a)" "list_all isDigit (take 2 (drop 5 a))"
      "list_all isDigit (drop 8 a)"
      using that(1) by (simp_all add: paddedDate_def)
    have db: "list_all isDigit (take 4 b)" "list_all isDigit (take 2 (drop 5 b))"
      "list_all isDigit (drop 8 b)"
      using that(2) by (simp_all add: paddedDate_def)
    have "(compareUnits (take 4 a @ 45 # take 2 (drop 5 a) @ 45 # drop 8 a)
                        (take 4 b @ 45 # take 2 (drop 5 b) @ 45 # drop 8 b) \<le> 0)
            = dateLe (take 4 a @ 45 # take 2 (drop 5 a) @ 45 # drop 8 a)
                     (take 4 b @ 45 # take 2 (drop 5 b) @ 45 # drop 8 b)"
      using la lb by (intro compareUnits_padded_dates da db) simp_all
    with pa pb show ?thesis by simp
  qed
  with assms show ?thesis
    by (auto simp: ordersDates_def list_all_iff)
qed

lemma docD_days: "extractActivityDaysFromChunk (js docD) [] = [dayFeb, dayOct]"
  by (simp add: extractActivityDaysFromChunk_def ACTIVITY_SUMMARY_REGEX_def docD_def js_def
        isWhiteSpace_def scan_rules rxm_Lazy_skip del: scan_defs)
     (simp add: activityDayFromMatch_def matchAt_def strOf_def number_defs dayFeb_def dayOct_def
        js_def floor_eq_iff)

lemma docD_others:
  "execAll WORKOUT_REGEX (js docD) 0 = []"
  "execAll BODY_MASS_REGEX (js docD) 0 = []"
  "execAll BODY_FAT_REGEX (js docD) 0 = []"
  by (simp_all add: regex_defs docD_def js_def isWhiteSpace_def scan_rules del: scan_defs)

lemma docD_extractAll:
  "extractAll exampleHost (js docD) ([], [], []) = Inr ([], [], [dayFeb, dayOct])"
  by (simp add: extractAll_def extractWorkoutsFromChunk_def extractBodyMetricsFromChunk_def
        docD_others docD_days)

lemma fileD_size: "fileSize fileD = 220" "list_all (\<lambda>b. b \<le> 0x7F) (content fileD)"
  by (simp_all add: fileSize_def fileD_def ascii_def docD_def)

lemma fileD_text: "utf8_decode (content fileD) = js docD"
  using utf8_decode_ascii [OF fileD_size(2)] by (simp add: fileD_def map_unat_ascii)

lemma fileD_name:
  "\<not> endsWith (toLowerCase (fileName fileD)) (js ''.zip'')"
  "endsWith (toLowerCase (fileName fileD)) (js ''.xml'')"
  by (simp_all add: fileD_def endsWith_def toLowerCase_def js_def)

lemma fileD_loop:
  "snd (scanLoop exampleHost CHUNK_SIZE fileD 0 [] ([], [], [])) = Inr ([], [], [dayFeb, dayOct])"
  by (subst scanLoop_single)
     (simp_all add: fileD_size fileD_text docD_extractAll CHUNK_SIZE_def)

lemma fileD_result:
  "snd (parseHealthExport exampleHost fileD) =
     Inr \<lparr>workouts = [], bodyMetrics = [], activityDays = [dayOct, dayFeb]\<rparr>"
proof -
  obtain evs where loop: "scanLoop exampleHost CHUNK_SIZE fileD 0 [] ([], [], []) =
     (evs, Inr ([], [], [dayFeb, dayOct]))"
    using fileD_loop by (cases "scanLoop exampleHost CHUNK_SIZE fileD 0 [] ([], [], [])") simp
  have dates: "compareUnits (js ''2024-2-1'') (js ''2024-10-01'') = 1"
    by (simp add: js_def)
  show ?thesis
    by (simp add: parseHealthExport_def parseHealthExportChunked_def Let_def fileD_name loop
          sortBy_def)
       (simp add: dayFeb_def dayOct_def exampleHost_def dates)
qed

text \<open>
  Claim C3 as stated fails: \<open>dateComponents\<close> is kept as it is written and compared as a
  string, so that of the two activity summaries of 1 February 2024, written \<open>2024-2-1\<close>,
  and of 1 October 2024, written \<open>2024-10-01\<close>, the one of October comes first in the
  result.
\<close>

theorem unpadded_dates_counterexample:
  "snd (parseHealthExport exampleHost fileD) =
     Inr \<lparr>workouts = [], bodyMetrics = [], activityDays = [dayOct, dayFeb]\<rparr>
   \<and> dateFields (dayDate dayOct) = [2024, 10, 1]
   \<and> dateFields (dayDate dayFeb) = [2024, 2, 1]
   \<and> \<not> dateLe (dayDate dayOct) (dayDate dayFeb)"
  by (simp add: fileD_result) (simp add: dateLe_def dateFields_def dayOct_def dayFeb_def js_def)

section \<open>Two chunks of the program's size\<close>

lemma findLast_after_spaces: "findLast [47, 62] (replicate k 32 @ [47, 62]) i = int (i + k)"
  by (induction k arbitrary: i) (simp_all add: startsWith_def Let_def)

lemma safeSplit_after_spaces:
  "safeSplit (replicate k 32 @ [47, 62]) = Some (replicate k 32 @ [47, 62], [])"
proof -
  have "findLast (js ''</Workout>'') (replicate k 32 @ [47, 62]) 0 = - 1"
    unfolding js_def by simp (rule findLast_absent, simp)
  moreover have "findLast (js ''/>'') (replicate k 32 @ [47, 62]) 0 = int k"
    using findLast_after_spaces [of k 0] by (simp add: js_def)
  ultimately show ?thesis
    by (simp add: safeSplit_def lastIndexOf_def substring_def substringFrom_def Let_def)
qed

lemma two_chunk_loop:
  assumes "2 < C"
    and "content file = replicate (C - 2) 0x20 @ [0x2F, 0x3E] @ replicate C 0x20"
  shows "scanLoop H C file 0 [] acc =
     ([Fragment C (replicate (C - 2) 32 @ [47, 62]), Progress (parsingReport C (2 * C) acc),
       Fragment (2 * C) (replicate C 32), Progress (parsingReport (2 * C) (2 * C) acc)],
      Inr acc)"
proof -
  define t1 where "t1 = replicate (C - 2) 32 @ [47, 62 :: nat]"
  define t2 where "t2 = replicate C (32 :: nat)"
  have n: "fileSize file = C + C"
    using assms by (simp add: fileSize_def)
  have c1: "slice (content file) 0 C = replicate (C - 2) 0x20 @ [0x2F, 0x3E]"
    using assms by (simp add: slice_def)
  have c2: "slice (content file) C (C + C) = replicate C 0x20"
    using assms by (simp add: slice_def)
  have d1: "utf8_decode (replicate (C - 2) 0x20 @ [0x2F, 0x3E]) = t1"
    using assms(1) unfolding t1_def by (simp add: utf8_decode_spaces startByte_def utf16_def)
  have d2: "utf8_decode (replicate C 0x20) = t2"
    using assms(1) utf8_decode_spaces [of C "[]"] unfolding t2_def by simp
  have s1: "safeSplit t1 = Some (t1, [])"
    unfolding t1_def by (rule safeSplit_after_spaces)
  have x1: "extractAll H t1 acc = Inr acc"
    unfolding t1_def by (rule extractAll_absent) auto
  have x2: "extractAll H t2 acc = Inr acc"
    unfolding t2_def by (rule extractAll_absent) auto
  have stop: "scanLoop H C file (C + C) [] acc = ([], Inr acc)"
    using n by (simp add: scanLoop_stop)
  have step2: "scanLoop H C file C [] acc =
      ([Fragment (C + C) t2, Progress (parsingReport (C + C) (C + C) acc)], Inr acc)"
    using assms(1)
    by (subst scanLoop.simps) (simp add: n c2 d2 x2 stop Let_def min_def)
  have step1: "scanLoop H C file 0 [] acc =
      (Fragment C t1 # Progress (parsingReport C (C + C) acc)
         # fst (scanLoop H C file C [] acc), snd (scanLoop H C file C [] acc))"
    using assms(1)
    by (subst scanLoop.simps) (simp add: n c1 d1 s1 x1 Let_def min_def split: prod.splits)
  show ?thesis
    by (simp add: step1 step2 mult_2) (simp add: t1_def t2_def)
qed

lemma fileHalf_name:
  "\<not> endsWith (toLowerCase (fileName fileHalf)) (js ''.zip'')"
  "endsWith (toLowerCase (fileName fileHalf)) (js ''.xml'')"
  by (simp_all add: fileHalf_def endsWith_def toLowerCase_def js_def)

lemma fileHalf_size: "fileSize fileHalf = 2 * CHUNK_SIZE"
  by (simp add: fileSize_def fileHalf_def CHUNK_SIZE_def)

lemma percent_first_chunk:
  "progressPercent CHUNK_SIZE (2 * CHUNK_SIZE) = Val 48"
  "progressPercent (2 * CHUNK_SIZE) (2 * CHUNK_SIZE) = Val 95"
  by (simp_all add: CHUNK_SIZE_def progressPercent_def fl_ev floor_eq_iff)

text \<open>
  The rounding of the product shows at 7 chunks of a file of 1992294400 bytes: the
  quotient times 95 is 3.5, and less than 3.5 as the program computes it, so that the
  percent is 3 and not 4.
\<close>

lemma percent_of_rounded_product:
  "progressPercent (7 * CHUNK_SIZE) 1992294400 = Val 3"
  "\<lfloor>(of_nat (7 * CHUNK_SIZE) :: rat) / 1992294400 * 95 + 1 / 2\<rfloor> = 4"
  by (simp_all add: CHUNK_SIZE_def progressPercent_def fl_ev floor_eq_iff)

lemma fileHalf_events:
  "\<exists>d0 d1. fst (parseHealthExport exampleHost fileHalf) =
     [Progress \<lparr>phase = Parsing, percent = Val 0, detail = d0\<rparr>,
      Fragment CHUNK_SIZE (replicate (CHUNK_SIZE - 2) 32 @ js ''/>''),
      Progress (parsingReport CHUNK_SIZE (2 * CHUNK_SIZE) ([], [], [])),
      Fragment (2 * CHUNK_SIZE) (replicate CHUNK_SIZE 32),
      Progress (parsingReport (2 * CHUNK_SIZE) (2 * CHUNK_SIZE) ([], [], [])),
      Progress \<lparr>phase = Done, percent = Val 100, detail = d1\<rparr>]"
proof -
  have C: "2 < CHUNK_SIZE" by (simp add: CHUNK_SIZE_def)
  have content: "content fileHalf
      = replicate (CHUNK_SIZE - 2) 0x20 @ [0x2F, 0x3E] @ replicate CHUNK_SIZE 0x20"
    by (simp add: fileHalf_def)
  note loop = two_chunk_loop [OF C content, of exampleHost "([], [], [])"]
  have sl: "js ''/>'' = [47, 62]" by (simp add: js_def)
  show ?thesis
    by (simp add: parseHealthExport_def parseHealthExportChunked_def Let_def fileHalf_name loop
          sortBy_def sl)
qed

text \<open>
  Claim C6 as stated fails: in the import of a file of twice \<open>CHUNK_SIZE\<close> bytes whose
  first chunk ends in \<open>/>\<close>, the report after the first fragment has the percent 48, and
  the floor of \<open>CHUNK_SIZE / file.size * 95\<close> is 47.
\<close>

theorem progress_floor_counterexample:
  "fst (parseHealthExport exampleHost fileHalf) ! 1
     = Fragment CHUNK_SIZE (replicate (CHUNK_SIZE - 2) 32 @ js ''/>'')
   \<and> fst (parseHealthExport exampleHost fileHalf) ! 2
     = Progress (parsingReport CHUNK_SIZE (fileSize fileHalf) ([], [], []))
   \<and> phase (parsingReport CHUNK_SIZE (fileSize fileHalf) ([], [], [])) = Parsing
   \<and> percent (parsingReport CHUNK_SIZE (fileSize fileHalf) ([], [], [])) = Val 48
   \<and> fileSize fileHalf = 2 * CHUNK_SIZE
   \<and> \<lfloor>(of_nat CHUNK_SIZE :: rat) / of_nat (fileSize fileHalf) * 95\<rfloor> = 47"
proof -
  from fileHalf_events obtain d0 d1 where
    evs: "fst (parseHealthExport exampleHost fileHalf) =
     [Progress \<lparr>phase = Parsing, percent = Val 0, detail = d0\<rparr>,
      Fragment CHUNK_SIZE (replicate (CHUNK_SIZE - 2) 32 @ js ''/>''),
      Progress (parsingReport CHUNK_SIZE (2 * CHUNK_SIZE) ([], [], [])),
      Fragment (2 * CHUNK_SIZE) (replicate CHUNK_SIZE 32),
      Progress (parsingReport (2 * CHUNK_SIZE) (2 * CHUNK_SIZE) ([], [], [])),
      Progress \<lparr>phase = Done, percent = Val 100, detail = d1\<rparr>]"
    by blast
  have "\<lfloor>(of_nat CHUNK_SIZE :: rat) / of_nat (2 * CHUNK_SIZE) * 95\<rfloor> = 47"
    by (simp add: CHUNK_SIZE_def floor_eq_iff)
  then show ?thesis
    by (simp add: evs fileHalf_size parsingReport_fields percent_first_chunk)
qed

text \<open>The amended claim C6 at that file.\<close>

theorem fragments_reported_witness:
  "reportsFollowFragments (fileSize fileHalf) (fst (parseHealthExport exampleHost fileHalf))
   \<and> fileSize fileHalf = 2 * CHUNK_SIZE
   \<and> map percent (progressOf (fst (parseHealthExport exampleHost fileHalf)))
       = [Val 0, Val 48, Val 95, Val 100]"
proof -
  from fileHalf_events obtain d0 d1 where
    evs: "fst (parseHealthExport exampleHost fileHalf) =
     [Progress \<lparr>phase = Parsing, percent = Val 0, detail = d0\<rparr>,
      Fragment CHUNK_SIZE (replicate (CHUNK_SIZE - 2) 32 @ js ''/>''),
      Progress (parsingReport CHUNK_SIZE (2 * CHUNK_SIZE) ([], [], [])),
      Fragment (2 * CHUNK_SIZE) (replicate CHUNK_SIZE 32),
      Progress (parsingReport (2 * CHUNK_SIZE) (2 * CHUNK_SIZE) ([], [], [])),
      Progress \<lparr>phase = Done, percent = Val 100, detail = d1\<rparr>]"
    by blast
  have p: "map percent (progressOf (fst (parseHealthExport exampleHost fileHalf)))
       = [Val 0, Val 48, Val 95, Val 100]"
    by (simp add: evs parsingReport_fields percent_first_chunk)
  from fragments_reported [of fileHalf exampleHost CHUNK_SIZE] p fileHalf_size show ?thesis
    by (simp add: parseHealthExport_def)
qed

section \<open>A workout record without a closing tag\<close>

lemmas docE_defs = docE_def yogaE_def runE_def statsE_def

lemma docE_matches: "execAll WORKOUT_REGEX (js docE) 0 = [matchYogaE, matchRunE]"
  by (simp add: WORKOUT_REGEX_def docE_defs matchYogaE_def matchRunE_def js_def isWhiteSpace_def
        scan_rules rxm_Lazy_skip del: scan_defs)

lemma docE_contexts:
  "workoutContext (js docE) matchYogaE = js docE"
  "workoutContext (js docE) matchRunE = js (runE @ statsE)"
  by (simp_all add: workoutContext_def docE_defs matchYogaE_def matchRunE_def indexOf_def
        matchAt_def strOf_def substring_def js_def Let_def scan_rules del: scan_defs)

lemma yogaE_no_energy:
  "extractMetadataValue (js yogaE) (js ''HKQuantityTypeIdentifierActiveEnergyBurned'') = None"
  by (simp add: yogaE_def extractMetadataValue_def statRegex_def qtyRegex_def js_def scan_rules
        del: scan_defs)

lemma docE_metadata:
  "extractMetadataValue (js docE) (js ''HKQuantityTypeIdentifierDistanceWalkingRunning'') = None"
  "extractMetadataValue (js docE) (js ''HKQuantityTypeIdentifierDistanceCycling'') = None"
  "extractMetadataValue (js docE) (js ''HKQuantityTypeIdentifierActiveEnergyBurned'') = Some (Val 250)"
  "extractMetadataValue (js (runE @ statsE)) (js ''HKQuantityTypeIdentifierDistanceWalkingRunning'') = None"
  "extractMetadataValue (js (runE @ statsE)) (js ''HKQuantityTypeIdentifierDistanceCycling'') = None"
  "extractMetadataValue (js (runE @ statsE)) (js ''HKQuantityTypeIdentifierActiveEnergyBurned'')
     = Some (Val 250)"
  by (simp_all add: docE_defs extractMetadataValue_def statRegex_def qtyRegex_def matchAt_def
        number_defs js_def scan_rules rxm_Lazy_skip del: scan_defs)

lemma matchE_fields:
  "newDateISO exampleHost (matchAt matchYogaE 4) = Inr 1705190400000"
  "newDateISO exampleHost (matchAt matchYogaE 5) = Inr 1705190400000"
  "map_of WORKOUT_TYPE_MAP (strOf (matchAt matchYogaE (Suc 0)))
     = Some (plain (js ''Yoga'') (js ''cooldown''))"
  "parseFloatOpt (matchAt matchYogaE 2) = Val 10"
  "strOf (matchAt matchYogaE 3) = js ''min''"
  "newDateISO exampleHost (matchAt matchRunE 4) = Inr 1705276800000"
  "newDateISO exampleHost (matchAt matchRunE 5) = Inr 1705276800000"
  "map_of WORKOUT_TYPE_MAP (strOf (matchAt matchRunE (Suc 0)))
     = Some (cardio (js ''Run'') (js ''run''))"
  "parseFloatOpt (matchAt matchRunE 2) = Val 1000"
  "strOf (matchAt matchRunE 3) = js ''sec''"
  by (simp_all add: matchYogaE_def matchRunE_def matchAt_def newDateISO_def exampleHost_def
        strOf_def WORKOUT_TYPE_MAP_def number_defs js_def)

text \<open>
  The two rates: 250 kcal in 600 seconds are 25 kcal per minute; 250 kcal in 1000 seconds
  are 15 kcal per minute exactly, and less than 15 as the program computes them.
\<close>

lemma effort_examples:
  "estimateEffort (Val 250) (Val 600) = 10"
  "estimateEffort (Val 250) (Val 1000) = 8"
  "fdiv (Val 250) (fdiv (Val 1000) (Val 60)) = Val (8444249301319679 / 562949953421312)"
  "effortOfRate (250 / (1000 / 60)) = 9"
  by (simp_all add: estimateEffort_def effortOfRate_def fl_ev)

lemma docE_sessions:
  "workoutFromMatch exampleHost (js docE) 0 matchYogaE = Inr sessionYogaE"
  "workoutFromMatch exampleHost (js docE) (Suc 0) matchRunE = Inr sessionRunE"
  by (simp_all add: workoutFromMatch_def Let_def matchE_fields docE_contexts docE_metadata
        orElse_def distanceField_def effortField_def durationSeconds_def plain_def cardio_def
        sessionYogaE_def sessionRunE_def js_eq_Nil js_eq_iff floor_eq_iff effort_examples)

lemma docE_workouts:
  "extractWorkoutsFromChunk exampleHost (js docE) [] = Inr [sessionYogaE, sessionRunE]"
  by (simp add: extractWorkoutsFromChunk_def docE_matches docE_sessions)

lemma docE_others:
  "execAll BODY_MASS_REGEX (js docE) 0 = []"
  "execAll BODY_FAT_REGEX (js docE) 0 = []"
  "execAll ACTIVITY_SUMMARY_REGEX (js docE) 0 = []"
  by (simp_all add: regex_defs docE_defs js_def isWhiteSpace_def scan_rules del: scan_defs)

lemma docE_extractAll:
  "extractAll exampleHost (js docE) ([], [], []) = Inr ([sessionYogaE, sessionRunE], [], [])"
  by (simp add: extractAll_def docE_workouts extractBodyMetricsFromChunk_def
        extractActivityDaysFromChunk_def docE_others)

lemma fileE_size: "fileSize fileE = 364" "list_all (\<lambda>b. b \<le> 0x7F) (content fileE)"
  by (simp_all add: fileSize_def fileE_def ascii_def docE_defs)

lemma fileE_text: "utf8_decode (content fileE) = js docE"
  using utf8_decode_ascii [OF fileE_size(2)] by (simp add: fileE_def map_unat_ascii)

lemma fileE_name:
  "\<not> endsWith (toLowerCase (fileName fileE)) (js ''.zip'')"
  "endsWith (toLowerCase (fileName fileE)) (js ''.xml'')"
  by (simp_all add: fileE_def endsWith_def toLowerCase_def js_def)

lemma fileE_loop:
  "snd (scanLoop exampleHost CHUNK_SIZE fileE 0 [] ([], [], [])) =
     Inr ([sessionYogaE, sessionRunE], [], [])"
  by (subst scanLoop_single)
     (simp_all add: fileE_size fileE_text docE_extractAll CHUNK_SIZE_def)

lemma fileE_result:
  "snd (parseHealthExport exampleHost fileE) =
     Inr \<lparr>workouts = [sessionYogaE, sessionRunE], bodyMetrics = [], activityDays = []\<rparr>"
proof -
  obtain evs where loop: "scanLoop exampleHost CHUNK_SIZE fileE 0 [] ([], [], []) =
     (evs, Inr ([sessionYogaE, sessionRunE], [], []))"
    using fileE_loop by (cases "scanLoop exampleHost CHUNK_SIZE fileE 0 [] ([], [], [])") simp
  show ?thesis
    by (simp add: parseHealthExport_def parseHealthExportChunked_def Let_def fileE_name loop
          sortBy_def)
       (simp add: sessionYogaE_def sessionRunE_def)
qed

text \<open>
  Claim C8 fails on the code. A workout record that is closed by \<open>/>\<close> and has no energy
  data, followed by a workout with an active energy of 250 kcal: the text searched for
  the statistics of the first record runs to the closing tag of the second workout, so
  that the first session gets the effort 10 from the energy of the second workout and
  its own 600 seconds. The second session has the effort 8: the program computes less
  than 15 kcal per minute for 250 kcal in 1000 seconds.
\<close>

theorem effort_of_following_workout:
  "snd (parseHealthExport exampleHost fileE) =
     Inr \<lparr>workouts = [sessionYogaE, sessionRunE], bodyMetrics = [], activityDays = []\<rparr>
   \<and> execAll WORKOUT_REGEX (js docE) 0 = [matchYogaE, matchRunE]
   \<and> strOf (matchAt matchYogaE 0) = js yogaE
   \<and> extractMetadataValue (js yogaE) (js ''HKQuantityTypeIdentifierActiveEnergyBurned'') = None
   \<and> workoutContext (js docE) matchYogaE = js docE
   \<and> overallEffort sessionYogaE = Some 10
   \<and> overallEffort sessionRunE = Some 8"
  by (simp add: fileE_result docE_matches yogaE_no_energy docE_contexts)
     (simp add: sessionYogaE_def sessionRunE_def matchYogaE_def matchAt_def strOf_def)

end
